theory Spec2Isabelle
  imports Complex_Main "HOL-Library.Word"
begin

section \<open>The JNI bridge of llama\_jni.cpp\<close>

text \<open>
  The bridge keeps a registry of sessions behind integer handles and drives the inference
  engine (llama.cpp) through its C entry points. The engine, the Java runtime and the C++
  allocator are outside the repository: they are parameters of the model, gathered in the
  records \<open>engine\<close> and \<open>JNIEnv\<close>. Every function below takes the registry as a value and
  returns the updated one.

  Integer types. \<open>jlong\<close> is a 64-bit word read with \<open>sint\<close>. Values of \<open>jint\<close>, \<open>int\<close> and
  \<open>llama_token\<close> are integers; the one place where 32-bit arithmetic can leave the range
  (the difference in the generation ceiling) is wrapped with \<open>wrap_int\<close>. The value of
  \<open>llama_n_ctx\<close> and the hardware concurrency are unsigned 32-bit words; the thread counts
  of the context parameters are signed 32-bit, so the hardware concurrency is narrowed with
  \<open>sint\<close> when it is stored there. A score (a \<open>float\<close> logit) is NaN or a number of a
  linear order, and \<open>float_gt\<close> is the comparison \<open>>\<close> of C: false when a side is NaN.

  Effects. The calls that initialise the backend or release a context or a model are logged
  in \<open>engine_calls\<close>, in the order they are made. A context pointer that is not null is
  modelled by the state of the context it points to; decoding and clearing return the new
  state. The \<open>try\<close> blocks catch what the C++ library throws when an allocation fails: the
  field \<open>bad_alloc\<close> of the engine says at which places that happens.
\<close>

type_synonym jlong = "64 word"
type_synonym jint = int
type_synonym jfloat = real
type_synonym llama_token = int
type_synonym jstring = "string option"

subsection \<open>Scores\<close>

text \<open>
  A C \<open>float\<close>: a number (the infinities are numbers, below and above the others) or NaN.
  The comparison \<open>a > b\<close> of C holds for two numbers in that order and for nothing else.
\<close>

datatype 's c_float = NaN | Num 's

fun float_gt :: "('s::linorder) c_float \<Rightarrow> 's c_float \<Rightarrow> bool" where
  "float_gt (Num a) (Num b) = (a > b)"
| "float_gt NaN b = False"
| "float_gt (Num a) NaN = False"

subsection \<open>External collaborators\<close>

record JNIEnv =
  GetStringUTFChars :: "string \<Rightarrow> string option"
  NewStringUTF :: "string \<Rightarrow> jstring"

record llama_model_params =
  use_mmap :: bool
  use_mlock :: bool

record llama_context_params =
  n_ctx :: int
  n_batch :: int
  n_threads :: int
  n_threads_batch :: int

record llama_batch =
  batch_n_tokens :: int
  batch_token :: "llama_token list"
  batch_pos :: "int list"
  batch_n_seq_id :: "int list"
  batch_seq_id :: "int list list"
  batch_logits :: "bool list"

text \<open>The places of the two \<open>try\<close> blocks where the C++ library can throw (allocation).\<close>

datatype alloc_site =
    Path_string | Session_object | Tokens_reserve | Registry_insert
  | Prompt_string | Tokens_resize | Result_append int | Tokens_push_back int

record ('m, 'c, 'v, 's) engine =
  llama_model_default_params :: llama_model_params
  llama_context_default_params :: llama_context_params
  llama_model_load_from_file :: "string \<Rightarrow> llama_model_params \<Rightarrow> 'm option"
  llama_init_from_model :: "'m \<Rightarrow> llama_context_params \<Rightarrow> 'c option"
  hardware_concurrency :: "32 word"
  random_device :: nat
  llama_memory_clear :: "'c \<Rightarrow> 'c"
  llama_model_get_vocab :: "'m \<Rightarrow> 'v"
  llama_n_ctx :: "'c \<Rightarrow> 32 word"
  llama_tokenize :: "'v \<Rightarrow> string \<Rightarrow> int \<Rightarrow> int \<Rightarrow> bool \<Rightarrow> bool \<Rightarrow> int \<times> llama_token list"
  llama_decode :: "'c \<Rightarrow> llama_batch \<Rightarrow> int \<times> 'c"
  llama_get_logits_ith :: "'c \<Rightarrow> int \<Rightarrow> 's c_float list option"
  llama_vocab_n_tokens :: "'v \<Rightarrow> int"
  llama_vocab_is_eog :: "'v \<Rightarrow> llama_token \<Rightarrow> bool"
  llama_token_to_piece :: "'v \<Rightarrow> llama_token \<Rightarrow> int \<Rightarrow> int \<Rightarrow> bool \<Rightarrow> int \<times> string"
  bad_alloc :: "alloc_site \<Rightarrow> bool"

subsection \<open>Sessions and the registry\<close>

record ('m, 'c) LlamaContext =
  model :: "'m option"
  context_ptr :: "'c option"
  tokens :: "llama_token list"
  rng :: nat

text \<open>Calls that release or initialise engine resources, in the order they are made.\<close>

datatype ('m, 'c) engine_call = Backend_init | Llama_free 'c | Llama_model_free 'm

record ('m, 'c) registry =
  g_contexts :: "jlong \<rightharpoonup> ('m, 'c) LlamaContext"
  g_next_handle :: jlong
  g_backend_initialized :: bool
  engine_calls :: "('m, 'c) engine_call list"

definition initial_registry :: "('m, 'c) registry" where
  "initial_registry =
     \<lparr>g_contexts = Map.empty, g_next_handle = 1, g_backend_initialized = False,
      engine_calls = []\<rparr>"

text \<open>\<open>LlamaContext::cleanup\<close>, run by the destructor: the calls it makes.\<close>

definition cleanup :: "('m, 'c) LlamaContext \<Rightarrow> ('m, 'c) engine_call list" where
  "cleanup ctx =
     (case context_ptr ctx of None \<Rightarrow> [] | Some c \<Rightarrow> [Llama_free c]) @
     (case model ctx of None \<Rightarrow> [] | Some m \<Rightarrow> [Llama_model_free m])"

definition jstring_to_string :: "JNIEnv \<Rightarrow> jstring \<Rightarrow> string" where
  "jstring_to_string env jstr =
     (case jstr of
        None \<Rightarrow> []
      | Some s \<Rightarrow> (case GetStringUTFChars env s of None \<Rightarrow> [] | Some chars \<Rightarrow> chars))"

definition string_to_jstring :: "JNIEnv option \<Rightarrow> string \<Rightarrow> jstring" where
  "string_to_jstring env str =
     (case env of None \<Rightarrow> None | Some e \<Rightarrow> NewStringUTF e str)"

definition get_context :: "('m, 'c) registry \<Rightarrow> jlong \<Rightarrow> ('m, 'c) LlamaContext option" where
  "get_context st handle = g_contexts st handle"

subsection \<open>Greedy selection\<close>

function greedy_scan ::
  "('s::linorder) c_float list \<Rightarrow> int \<Rightarrow> int \<Rightarrow> int \<Rightarrow> 's c_float \<Rightarrow> int" where
  "greedy_scan lg n_vocab i best_token best_logit =
     (if i < n_vocab then
        (if float_gt (lg ! nat i) best_logit
         then greedy_scan lg n_vocab (i + 1) i (lg ! nat i)
         else greedy_scan lg n_vocab (i + 1) best_token best_logit)
      else best_token)"
  by pat_completeness auto
termination
  by (relation "measure (\<lambda>(lg, n_vocab, i, best_token, best_logit). nat (n_vocab - i))") auto

declare greedy_scan.simps [simp del]

definition sample_token_greedy ::
  "('m, 'c, 'v, 's::linorder) engine \<Rightarrow> ('m, 'c) LlamaContext option
     \<Rightarrow> 's c_float list option \<Rightarrow> llama_token" where
  "sample_token_greedy eng ctx lgp =
     (case (ctx, lgp) of
        (Some cx, Some lg) \<Rightarrow>
          (case (model cx, context_ptr cx) of
             (Some m, Some c) \<Rightarrow>
               (let vocab = llama_model_get_vocab eng m;
                    n_vocab = llama_vocab_n_tokens eng vocab
                in greedy_scan lg n_vocab 1 0 (lg ! 0))
           | _ \<Rightarrow> 0)
      | _ \<Rightarrow> 0)"

subsection \<open>Loading a model\<close>

definition load_model_params :: "('m, 'c, 'v, 's) engine \<Rightarrow> llama_model_params" where
  "load_model_params eng = (llama_model_default_params eng)\<lparr>use_mmap := True, use_mlock := False\<rparr>"

text \<open>Lines 139 to 157: the context parameters, from the normalised context size.\<close>

definition load_context_params ::
  "('m, 'c, 'v, 's) engine \<Rightarrow> jint \<Rightarrow> jint \<Rightarrow> llama_context_params" where
  "load_context_params eng contextSize threads =
     (let ctx_params = (llama_context_default_params eng)
            \<lparr>n_ctx := contextSize, n_batch := min 512 (contextSize div 4)\<rparr>
      in if threads > 0 then ctx_params\<lparr>n_threads := threads, n_threads_batch := threads\<rparr>
         else if threads = -1 then
           (let hw_threads = hardware_concurrency eng;
                ctx_params = ctx_params\<lparr>n_threads := (if hw_threads > 0 then sint hw_threads else 4)\<rparr>
            in ctx_params\<lparr>n_threads_batch := n_threads ctx_params\<rparr>)
         else ctx_params\<lparr>n_threads := 4, n_threads_batch := 4\<rparr>)"

text \<open>
  A session that goes out of scope is destroyed: its destructor's calls are appended to
  \<open>engine_calls\<close>.
\<close>

definition destroy :: "('m, 'c) LlamaContext \<Rightarrow> ('m, 'c) registry \<Rightarrow> ('m, 'c) registry" where
  "destroy ctx st = st\<lparr>engine_calls := engine_calls st @ cleanup ctx\<rparr>"

definition nativeLoadModel ::
  "('m, 'c, 'v, 's) engine \<Rightarrow> JNIEnv option \<Rightarrow> ('m, 'c) registry \<Rightarrow> jstring \<Rightarrow> jint \<Rightarrow> jint
     \<Rightarrow> jlong \<times> ('m, 'c) registry" where
  "nativeLoadModel eng env st modelPath contextSize threads =
     (let st = (if g_backend_initialized st then st
                else st\<lparr>g_backend_initialized := True,
                        engine_calls := engine_calls st @ [Backend_init]\<rparr>)
      in case (env, modelPath) of
           (Some e, Some _) \<Rightarrow>
             if bad_alloc eng Path_string then (0, st) else
             let path = jstring_to_string e modelPath in
             if path = [] then (0, st) else
             let contextSize = (if contextSize \<le> 0 then 2048 else contextSize) in
             if bad_alloc eng Session_object then (0, st) else
             let ctx = \<lparr>model = None, context_ptr = None, tokens = [], rng = random_device eng\<rparr> in
             (case llama_model_load_from_file eng path (load_model_params eng) of
                None \<Rightarrow> (0, destroy ctx st)
              | Some m \<Rightarrow>
                  let ctx = ctx\<lparr>model := Some m\<rparr>;
                      ctx_params = load_context_params eng contextSize threads
                  in (case llama_init_from_model eng m ctx_params of
                        None \<Rightarrow> (0, destroy ctx st)
                      | Some c \<Rightarrow>
                          let ctx = ctx\<lparr>context_ptr := Some c\<rparr> in
                          if bad_alloc eng Tokens_reserve then (0, destroy ctx st) else
                          let handle = g_next_handle st;
                              st = st\<lparr>g_next_handle := handle + 1\<rparr>
                          in if bad_alloc eng Registry_insert then (0, destroy ctx st)
                             else (handle,
                                   (case g_contexts st handle of
                                      None \<Rightarrow> st
                                    | Some old \<Rightarrow> destroy old st)
                                   \<lparr>g_contexts := (g_contexts st)(handle \<mapsto> ctx)\<rparr>)))
         | _ \<Rightarrow> (0, st))"

subsection \<open>Releasing a session\<close>

definition nativeCleanup :: "('m, 'c) registry \<Rightarrow> jlong \<Rightarrow> ('m, 'c) registry" where
  "nativeCleanup st handle =
     (if handle = 0 then st
      else (case g_contexts st handle of
              None \<Rightarrow> st
            | Some ctx \<Rightarrow> destroy ctx (st\<lparr>g_contexts := (g_contexts st)(handle := None)\<rparr>)))"

subsection \<open>Generating text\<close>

definition wrap_int :: "int \<Rightarrow> int" where
  "wrap_int x = sint (word_of_int x :: 32 word)"

text \<open>\<open>std::vector::resize\<close> on a vector of tokens.\<close>

definition resize :: "llama_token list \<Rightarrow> nat \<Rightarrow> llama_token list" where
  "resize xs n = take n xs @ replicate (n - length xs) 0"

text \<open>The buffer after the tokenizer has written its tokens at the front.\<close>

definition tokenize_into :: "llama_token list \<Rightarrow> llama_token list \<Rightarrow> llama_token list" where
  "tokenize_into buf written = take (length buf) written @ drop (length written) buf"

text \<open>Lines 238 to 254: the batch that holds the whole prompt.\<close>

definition prompt_batch :: "llama_token list \<Rightarrow> int \<Rightarrow> llama_batch" where
  "prompt_batch toks n_tokens =
     \<lparr>batch_n_tokens = n_tokens,
      batch_token = take (nat n_tokens) toks,
      batch_pos = map int [0..<nat n_tokens],
      batch_n_seq_id = replicate (nat n_tokens) 1,
      batch_seq_id = replicate (nat n_tokens) [0],
      batch_logits = (replicate (nat n_tokens) False)[nat (n_tokens - 1) := True]\<rparr>"

text \<open>Lines 292 to 297: the same batch, reused for one token.\<close>

definition next_batch :: "llama_batch \<Rightarrow> llama_token \<Rightarrow> nat \<Rightarrow> llama_batch" where
  "next_batch batch new_token n =
     batch\<lparr>batch_n_tokens := 1,
           batch_token := (batch_token batch)[0 := new_token],
           batch_pos := (batch_pos batch)[0 := int n],
           batch_n_seq_id := (batch_n_seq_id batch)[0 := 1],
           batch_seq_id := (batch_seq_id batch)[0 := (batch_seq_id batch ! 0)[0 := 0]],
           batch_logits := (batch_logits batch)[0 := True]\<rparr>"

text \<open>The variables of the generation loop that change from one iteration to the next.\<close>

record 'c gen_vars =
  gen_result :: string
  gen_batch :: llama_batch
  gen_tokens :: "llama_token list"
  gen_context :: 'c

datatype 'a loop_step = Break 'a | Throw 'a | Continue 'a

datatype 'a loop_exit = Finished 'a | Thrown 'a

fun exit_vars :: "'a loop_exit \<Rightarrow> 'a" where
  "exit_vars (Finished gv) = gv"
| "exit_vars (Thrown gv) = gv"

definition session_of :: "('m, 'c) LlamaContext \<Rightarrow> 'c gen_vars \<Rightarrow> ('m, 'c) LlamaContext" where
  "session_of ctx gv = ctx\<lparr>tokens := gen_tokens gv, context_ptr := Some (gen_context gv)\<rparr>"

text \<open>The text of a token: what one iteration appends to the result (lines 284 to 289).\<close>

definition piece_text :: "('m, 'c, 'v, 's) engine \<Rightarrow> 'v \<Rightarrow> llama_token \<Rightarrow> string" where
  "piece_text eng vocab new_token =
     (let piece_len = fst (llama_token_to_piece eng vocab new_token 256 0 False);
          piece = snd (llama_token_to_piece eng vocab new_token 256 0 False)
      in if piece_len > 0 then take (nat piece_len) piece else [])"

text \<open>Lines 269 to 304: the body of the loop, at iteration \<open>i\<close>.\<close>

definition generate_step ::
  "('m, 'c, 'v, 's::linorder) engine \<Rightarrow> ('m, 'c) LlamaContext \<Rightarrow> 'v \<Rightarrow> int \<Rightarrow> 'c gen_vars
     \<Rightarrow> 'c gen_vars loop_step" where
  "generate_step eng ctx vocab i gv =
     (case llama_get_logits_ith eng (gen_context gv) (batch_n_tokens (gen_batch gv) - 1) of
        None \<Rightarrow> Break gv
      | Some lg \<Rightarrow>
          let new_token = sample_token_greedy eng (Some (session_of ctx gv)) (Some lg) in
          if llama_vocab_is_eog eng vocab new_token then Break gv
          else
            let piece_len = fst (llama_token_to_piece eng vocab new_token 256 0 False) in
            if piece_len > 0 \<and> bad_alloc eng (Result_append i) then Throw gv
            else
              let gv = gv\<lparr>gen_result := gen_result gv @ piece_text eng vocab new_token\<rparr>;
                  gv = gv\<lparr>gen_batch := next_batch (gen_batch gv) new_token (length (gen_tokens gv))\<rparr>
              in if bad_alloc eng (Tokens_push_back i) then Throw gv
                 else
                   let gv = gv\<lparr>gen_tokens := gen_tokens gv @ [new_token]\<rparr>;
                       rc = fst (llama_decode eng (gen_context gv) (gen_batch gv));
                       gv = gv\<lparr>gen_context := snd (llama_decode eng (gen_context gv) (gen_batch gv))\<rparr>
                   in if rc \<noteq> 0 then Break gv else Continue gv)"

text \<open>Line 268: the loop, from iteration \<open>i\<close> on.\<close>

function generate_loop ::
  "('m, 'c, 'v, 's::linorder) engine \<Rightarrow> ('m, 'c) LlamaContext \<Rightarrow> 'v \<Rightarrow> int \<Rightarrow> int \<Rightarrow> 'c gen_vars
     \<Rightarrow> 'c gen_vars loop_exit" where
  "generate_loop eng ctx vocab max_gen_tokens i gv =
     (if i < max_gen_tokens then
        (case generate_step eng ctx vocab i gv of
           Break gv' \<Rightarrow> Finished gv'
         | Throw gv' \<Rightarrow> Thrown gv'
         | Continue gv' \<Rightarrow> generate_loop eng ctx vocab max_gen_tokens (i + 1) gv')
      else Finished gv)"
  by pat_completeness auto
termination
  by (relation "measure (\<lambda>(eng, ctx, vocab, max_gen_tokens, i, gv). nat (max_gen_tokens - i))")
     auto

declare generate_loop.simps [simp del]

text \<open>
  The variables at the start of every iteration that the loop reaches, and at its exit.
\<close>

function generate_loop_states ::
  "('m, 'c, 'v, 's::linorder) engine \<Rightarrow> ('m, 'c) LlamaContext \<Rightarrow> 'v \<Rightarrow> int \<Rightarrow> int \<Rightarrow> 'c gen_vars
     \<Rightarrow> 'c gen_vars list" where
  "generate_loop_states eng ctx vocab max_gen_tokens i gv =
     gv # (if i < max_gen_tokens then
             (case generate_step eng ctx vocab i gv of
                Break gv' \<Rightarrow> [gv']
              | Throw gv' \<Rightarrow> [gv']
              | Continue gv' \<Rightarrow> generate_loop_states eng ctx vocab max_gen_tokens (i + 1) gv')
           else [])"
  by pat_completeness auto
termination
  by (relation "measure (\<lambda>(eng, ctx, vocab, max_gen_tokens, i, gv). nat (max_gen_tokens - i))")
     auto

declare generate_loop_states.simps [simp del]

text \<open>
  Lines 237 to 308: the prompt is decoded in one batch, then tokens are generated. The
  token vector of \<open>ctx\<close> holds the \<open>n_tokens\<close> tokens of the prompt.
\<close>

definition generate_from_tokens ::
  "('m, 'c, 'v, 's::linorder) engine \<Rightarrow> JNIEnv \<Rightarrow> ('m, 'c) LlamaContext \<Rightarrow> 'v \<Rightarrow> 'c \<Rightarrow> jint \<Rightarrow> int
     \<Rightarrow> jstring \<times> ('m, 'c) LlamaContext" where
  "generate_from_tokens eng env ctx vocab c maxTokens n_tokens =
     (let batch = prompt_batch (tokens ctx) n_tokens;
          rc = fst (llama_decode eng c batch);
          c = snd (llama_decode eng c batch);
          ctx = ctx\<lparr>context_ptr := Some c\<rparr>
      in if rc \<noteq> 0
         then (string_to_jstring (Some env) ''Error: Failed to decode prompt'', ctx)
         else
           let max_gen_tokens = min maxTokens (wrap_int (sint (llama_n_ctx eng c) - n_tokens))
           in (case generate_loop eng ctx vocab max_gen_tokens 0
                      \<lparr>gen_result = [], gen_batch = batch,
                       gen_tokens = tokens ctx, gen_context = c\<rparr> of
                 Finished gv \<Rightarrow>
                   (string_to_jstring (Some env) (gen_result gv), session_of ctx gv)
               | Thrown gv \<Rightarrow>
                   (string_to_jstring (Some env) ''Error: Exception during text generation'',
                    session_of ctx gv)))"

text \<open>
  Lines 198 to 316: the \<open>try\<close> block, on a session whose model \<open>m\<close> and context \<open>c\<close> are
  not null.
\<close>

definition generate_try ::
  "('m, 'c, 'v, 's::linorder) engine \<Rightarrow> JNIEnv \<Rightarrow> ('m, 'c) LlamaContext \<Rightarrow> 'm \<Rightarrow> 'c \<Rightarrow> jstring
     \<Rightarrow> jint \<Rightarrow> jstring \<times> ('m, 'c) LlamaContext" where
  "generate_try eng env ctx m c prompt maxTokens =
     (if bad_alloc eng Prompt_string
      then (string_to_jstring (Some env) ''Error: Exception during text generation'', ctx)
      else
        let input = jstring_to_string env prompt in
        if input = [] then (string_to_jstring (Some env) ''Error: Empty prompt'', ctx)
        else
          let maxTokens = (if maxTokens \<le> 0 then 256 else maxTokens);
              c = llama_memory_clear eng c;
              ctx = ctx\<lparr>tokens := [], context_ptr := Some c\<rparr>;
              vocab = llama_model_get_vocab eng m;
              max_input_tokens = uint (llama_n_ctx eng c div 2)
          in if bad_alloc eng Tokens_resize
             then (string_to_jstring (Some env) ''Error: Exception during text generation'', ctx)
             else
               let ctx = ctx\<lparr>tokens := resize (tokens ctx) (nat max_input_tokens)\<rparr>;
                   n_tokens = fst (llama_tokenize eng vocab input (int (length input))
                                     max_input_tokens True False);
                   written = snd (llama_tokenize eng vocab input (int (length input))
                                    max_input_tokens True False);
                   ctx = ctx\<lparr>tokens := tokenize_into (tokens ctx) written\<rparr>
               in if n_tokens < 0
                  then (string_to_jstring (Some env) ''Error: Tokenization failed'', ctx)
                  else generate_from_tokens eng env
                         (ctx\<lparr>tokens := resize (tokens ctx) (nat n_tokens)\<rparr>)
                         vocab c maxTokens n_tokens)"

definition nativeGenerateText ::
  "('m, 'c, 'v, 's::linorder) engine \<Rightarrow> JNIEnv option \<Rightarrow> ('m, 'c) registry \<Rightarrow> jlong \<Rightarrow> jstring
     \<Rightarrow> jint \<Rightarrow> jfloat \<Rightarrow> jfloat \<Rightarrow> jint \<Rightarrow> jstring \<times> ('m, 'c) registry" where
  "nativeGenerateText eng env st handle prompt maxTokens temperature topP topK =
     (case (env, prompt) of
        (Some e, Some _) \<Rightarrow>
          if handle = 0 then (string_to_jstring env ''Error: Invalid parameters'', st)
          else
            (case get_context st handle of
               None \<Rightarrow> (string_to_jstring env ''Error: Invalid handle or model not loaded'', st)
             | Some ctx \<Rightarrow>
                 (case (model ctx, context_ptr ctx) of
                    (Some m, Some c) \<Rightarrow>
                      (let r = generate_try eng e ctx m c prompt maxTokens
                       in (fst r, st\<lparr>g_contexts := (g_contexts st)(handle \<mapsto> snd r)\<rparr>))
                  | _ \<Rightarrow>
                      (string_to_jstring env ''Error: Invalid handle or model not loaded'', st)))
      | _ \<Rightarrow> (string_to_jstring env ''Error: Invalid parameters'', st))"

subsection \<open>Sequences of calls\<close>

datatype ('m, 'c, 'v, 's) call =
    Load "('m, 'c, 'v, 's) engine" "JNIEnv option" jstring jint jint
  | Generate "('m, 'c, 'v, 's) engine" "JNIEnv option" jlong jstring jint jfloat jfloat jint
  | Cleanup jlong

datatype ret = Handle jlong | Text jstring | Void

fun run_call ::
  "('m, 'c, 'v, 's::linorder) call \<Rightarrow> ('m, 'c) registry \<Rightarrow> ret \<times> ('m, 'c) registry" where
  "run_call (Load eng env modelPath contextSize threads) st =
     (let r = nativeLoadModel eng env st modelPath contextSize threads in (Handle (fst r), snd r))"
| "run_call (Generate eng env handle prompt maxTokens temperature topP topK) st =
     (let r = nativeGenerateText eng env st handle prompt maxTokens temperature topP topK
      in (Text (fst r), snd r))"
| "run_call (Cleanup handle) st = (Void, nativeCleanup st handle)"

fun run ::
  "('m, 'c, 'v, 's::linorder) call list \<Rightarrow> ('m, 'c) registry \<Rightarrow> ret list \<times> ('m, 'c) registry" where
  "run [] st = ([], st)"
| "run (c # cs) st =
     (let r = run_call c st; rs = run cs (snd r) in (fst r # fst rs, snd rs))"

text \<open>The handles that the successful loads of a sequence returned, in order.\<close>

fun issued :: "ret list \<Rightarrow> jlong list" where
  "issued [] = []"
| "issued (Handle h # rs) = (if h = 0 then issued rs else h # issued rs)"
| "issued (Text t # rs) = issued rs"
| "issued (Void # rs) = issued rs"

subsection \<open>What the bridge expects of the engine\<close>

text \<open>
  The tokenizer returns a count within the capacity it was given, or a negative number.
\<close>

definition tokenize_within_capacity :: "('m, 'c, 'v, 's) engine \<Rightarrow> bool" where
  "tokenize_within_capacity eng \<longleftrightarrow>
     (\<forall>vocab text text_len n_tokens_max add_special parse_special.
        0 \<le> n_tokens_max \<longrightarrow>
        fst (llama_tokenize eng vocab text text_len n_tokens_max add_special parse_special)
          \<le> n_tokens_max)"

text \<open>The context length of a context is fixed when the context is made.\<close>

definition n_ctx_fixed :: "('m, 'c, 'v, 's) engine \<Rightarrow> bool" where
  "n_ctx_fixed eng \<longleftrightarrow>
     (\<forall>c batch. llama_n_ctx eng (snd (llama_decode eng c batch)) = llama_n_ctx eng c) \<and>
     (\<forall>c. llama_n_ctx eng (llama_memory_clear eng c) = llama_n_ctx eng c)"

text \<open>Clearing the memory of a context forgets every decode made on it.\<close>

definition memory_clear_resets :: "('m, 'c, 'v, 's) engine \<Rightarrow> bool" where
  "memory_clear_resets eng \<longleftrightarrow>
     (\<forall>c batch. llama_memory_clear eng (snd (llama_decode eng c batch)) = llama_memory_clear eng c) \<and>
     (\<forall>c. llama_memory_clear eng (llama_memory_clear eng c) = llama_memory_clear eng c)"

subsection \<open>A small engine to run the bridge on\<close>

text \<open>
  Four tokens: 0 reads \<open>a\<close>, 1 reads \<open>b\<close>, 2 has no text, 3 ends the sequence. A context is
  its length and the tokens decoded so far; the next token is the number of decoded tokens
  modulo 4. Decoding fails beyond \<open>cap\<close> tokens, and no logits are available from \<open>avail\<close>
  tokens on.
\<close>

definition example_engine ::
  "nat \<Rightarrow> nat \<Rightarrow> (nat, 32 word \<times> llama_token list, unit, int) engine" where
  "example_engine cap avail =
     \<lparr>llama_model_default_params = \<lparr>use_mmap = False, use_mlock = False\<rparr>,
      llama_context_default_params =
        \<lparr>n_ctx = 512, n_batch = 2048, n_threads = 1, n_threads_batch = 1\<rparr>,
      llama_model_load_from_file =
        (\<lambda>path params. if path = ''model.gguf'' then Some 0 else None),
      llama_init_from_model =
        (\<lambda>m params. if 4 \<le> n_ctx params then Some (word_of_int (n_ctx params), []) else None),
      hardware_concurrency = 8,
      random_device = 42,
      llama_memory_clear = (\<lambda>c. (fst c, [])),
      llama_model_get_vocab = (\<lambda>m. ()),
      llama_n_ctx = fst,
      llama_tokenize =
        (\<lambda>vocab text text_len n_tokens_max add_special parse_special.
           if text_len \<le> n_tokens_max
           then (text_len, map (\<lambda>ch. if ch = CHR ''b'' then 1 else 0) text)
           else (- text_len, [])),
      llama_decode =
        (\<lambda>c batch.
           if batch_n_tokens batch \<le> 0 \<or> int cap < int (length (snd c)) + batch_n_tokens batch
           then (1, c)
           else (0, (fst c, snd c @ take (nat (batch_n_tokens batch)) (batch_token batch)))),
      llama_get_logits_ith =
        (\<lambda>c i. if avail \<le> length (snd c) then None
               else Some (map (\<lambda>t. Num (if t = int (length (snd c) mod 4) then 1 else 0))
                            [0, 1, 2, 3])),
      llama_vocab_n_tokens = (\<lambda>vocab. 4),
      llama_vocab_is_eog = (\<lambda>vocab t. t = 3),
      llama_token_to_piece =
        (\<lambda>vocab t len lstrip special.
           if t = 0 then (1, ''a'') else if t = 1 then (1, ''b'') else (0, [])),
      bad_alloc = (\<lambda>site. False)\<rparr>"

definition example_env :: JNIEnv where
  "example_env = \<lparr>GetStringUTFChars = Some, NewStringUTF = Some\<rparr>"

text \<open>The registry after one successful load with a context of 8 tokens.\<close>

definition example_registry :: "(nat, 32 word \<times> llama_token list) registry" where
  "example_registry =
     snd (nativeLoadModel (example_engine 8 8) (Some example_env) initial_registry
            (Some ''model.gguf'') 8 4)"

text \<open>Three loads, with the first session released before the third load.\<close>

definition example_calls ::
  "(nat, 32 word \<times> llama_token list, unit, int) call list" where
  "example_calls =
     [Load (example_engine 8 8) (Some example_env) (Some ''model.gguf'') 8 4,
      Load (example_engine 8 8) (Some example_env) (Some ''model.gguf'') 0 (-1),
      Cleanup 1,
      Load (example_engine 8 8) (Some example_env) (Some ''model.gguf'') 16 0]"

section \<open>Properties\<close>

subsection \<open>Greedy selection returns the first maximum\<close>

lemma float_gt_Num_iff: "float_gt x (Num v) \<longleftrightarrow> (\<exists>u. x = Num u \<and> v < u)"
  by (cases x) simp_all

lemma greedy_scan_inv:
  assumes "0 \<le> best_token" "best_token < i" "i \<le> n_vocab"
    "best_logit = Num v" "lg ! nat best_token = Num v"
    "\<forall>j w. 0 \<le> j \<and> j < i \<and> lg ! nat j = Num w \<longrightarrow> w \<le> v"
    "\<forall>j w. 0 \<le> j \<and> j < best_token \<and> lg ! nat j = Num w \<longrightarrow> w < v"
  shows "0 \<le> greedy_scan lg n_vocab i best_token best_logit \<and>
         greedy_scan lg n_vocab i best_token best_logit < n_vocab \<and>
         (\<exists>u. lg ! nat (greedy_scan lg n_vocab i best_token best_logit) = Num u \<and>
            (\<forall>j w. 0 \<le> j \<and> j < n_vocab \<and> lg ! nat j = Num w \<longrightarrow> w \<le> u) \<and>
            (\<forall>j w. 0 \<le> j \<and> j < greedy_scan lg n_vocab i best_token best_logit \<and>
                   lg ! nat j = Num w \<longrightarrow> w < u))"
  using assms
proof (induction lg n_vocab i best_token best_logit arbitrary: v rule: greedy_scan.induct)
  case (1 lg n_vocab i best_token best_logit)
  show ?case
  proof (cases "i < n_vocab")
    case False
    with "1.prems" have "i = n_vocab" by simp
    moreover have "greedy_scan lg n_vocab i best_token best_logit = best_token"
      using False by (subst greedy_scan.simps) simp
    ultimately show ?thesis using "1.prems" by simp
  next
    case True
    note lt = True
    have i0: "0 \<le> i" using "1.prems" by simp
    show ?thesis
    proof (cases "float_gt (lg ! nat i) best_logit")
      case True
      then obtain u where u: "lg ! nat i = Num u" "v < u"
        unfolding "1.prems"(4) float_gt_Num_iff by blast
      have a: "\<forall>j w. 0 \<le> j \<and> j < i + 1 \<and> lg ! nat j = Num w \<longrightarrow> w \<le> u"
      proof (intro allI impI)
        fix j w assume h: "0 \<le> j \<and> j < i + 1 \<and> lg ! nat j = Num w"
        show "w \<le> u"
        proof (cases "j = i")
          case True then show ?thesis using h u by simp
        next
          case False
          with h have "0 \<le> j \<and> j < i \<and> lg ! nat j = Num w" by simp
          with "1.prems"(6) have "w \<le> v" by blast
          with u show ?thesis by simp
        qed
      qed
      have b: "\<forall>j w. 0 \<le> j \<and> j < i \<and> lg ! nat j = Num w \<longrightarrow> w < u"
      proof (intro allI impI)
        fix j w assume h: "0 \<le> j \<and> j < i \<and> lg ! nat j = Num w"
        with "1.prems"(6) have "w \<le> v" by blast
        with u show "w < u" by simp
      qed
      have c: "i < i + 1" "i + 1 \<le> n_vocab" using lt by simp_all
      have eq: "greedy_scan lg n_vocab i best_token best_logit =
                greedy_scan lg n_vocab (i + 1) i (lg ! nat i)"
        using lt True by (subst greedy_scan.simps) simp
      show ?thesis unfolding eq
        by (rule "1.IH"(1)[OF lt True i0 c u(1) u(1) a b])
    next
      case False
      then have nup: "\<forall>w. lg ! nat i = Num w \<longrightarrow> w \<le> v"
        unfolding "1.prems"(4) float_gt_Num_iff by auto
      have a: "\<forall>j w. 0 \<le> j \<and> j < i + 1 \<and> lg ! nat j = Num w \<longrightarrow> w \<le> v"
      proof (intro allI impI)
        fix j w assume h: "0 \<le> j \<and> j < i + 1 \<and> lg ! nat j = Num w"
        show "w \<le> v"
        proof (cases "j = i")
          case True with nup h show ?thesis by simp
        next
          case F: False
          with h have "0 \<le> j \<and> j < i \<and> lg ! nat j = Num w" by simp
          with "1.prems"(6) show ?thesis by blast
        qed
      qed
      have c: "best_token < i + 1" "i + 1 \<le> n_vocab" using lt "1.prems"(2) by simp_all
      have eq: "greedy_scan lg n_vocab i best_token best_logit =
                greedy_scan lg n_vocab (i + 1) best_token best_logit"
        using lt False by (subst greedy_scan.simps) simp
      show ?thesis unfolding eq
        by (rule "1.IH"(2)[OF lt False "1.prems"(1) c "1.prems"(4) "1.prems"(5) a "1.prems"(7)])
    qed
  qed
qed

lemma sample_token_greedy_first_number:
  fixes eng :: "('m, 'c, 'v, 's::linorder) engine"
  assumes "model ctx = Some m" "context_ptr ctx = Some c"
    and "1 \<le> llama_vocab_n_tokens eng (llama_model_get_vocab eng m)"
    and "llama_vocab_n_tokens eng (llama_model_get_vocab eng m) = int (length lg)"
    and "lg ! 0 \<noteq> NaN"
  shows "0 \<le> sample_token_greedy eng (Some ctx) (Some lg) \<and>
         nat (sample_token_greedy eng (Some ctx) (Some lg)) < length lg \<and>
         (\<exists>u. lg ! nat (sample_token_greedy eng (Some ctx) (Some lg)) = Num u \<and>
            (\<forall>j w. j < length lg \<and> lg ! j = Num w \<longrightarrow> w \<le> u) \<and>
            (\<forall>j w. j < nat (sample_token_greedy eng (Some ctx) (Some lg)) \<and> lg ! j = Num w
                \<longrightarrow> w < u))"
proof -
  let ?n = "llama_vocab_n_tokens eng (llama_model_get_vocab eng m)"
  let ?t = "greedy_scan lg ?n 1 0 (lg ! 0)"
  obtain v where v: "lg ! 0 = Num v" using assms(5) by (cases "lg ! 0") simp_all
  have eq: "sample_token_greedy eng (Some ctx) (Some lg) = ?t"
    using assms(1,2) by (simp add: sample_token_greedy_def Let_def)
  have p1: "\<forall>j w. 0 \<le> j \<and> j < (1::int) \<and> lg ! nat j = Num w \<longrightarrow> w \<le> v"
  proof (intro allI impI)
    fix j :: int and w assume h: "0 \<le> j \<and> j < 1 \<and> lg ! nat j = Num w"
    then have "j = 0" by simp
    with h v show "w \<le> v" by simp
  qed
  have p2: "\<forall>j w. 0 \<le> j \<and> j < (0::int) \<and> lg ! nat j = Num w \<longrightarrow> w < v" by auto
  have v': "lg ! nat 0 = Num v" using v by simp
  have z: "(0::int) \<le> 0" "(0::int) < 1" by simp_all
  from greedy_scan_inv[OF z assms(3) v v' p1 p2]
  obtain u where inv: "0 \<le> ?t" "?t < ?n" "lg ! nat ?t = Num u"
      "\<forall>j w. 0 \<le> j \<and> j < ?n \<and> lg ! nat j = Num w \<longrightarrow> w \<le> u"
      "\<forall>j w. 0 \<le> j \<and> j < ?t \<and> lg ! nat j = Num w \<longrightarrow> w < u"
    by blast
  have a: "nat ?t < length lg" using inv(1,2) assms(4) by linarith
  have b: "\<forall>j w. j < length lg \<and> lg ! j = Num w \<longrightarrow> w \<le> u"
  proof (intro allI impI)
    fix j w assume h: "j < length lg \<and> lg ! j = Num w"
    then have "0 \<le> int j \<and> int j < ?n \<and> lg ! nat (int j) = Num w" using assms(4) by simp
    with inv(4) show "w \<le> u" by blast
  qed
  have c: "\<forall>j w. j < nat ?t \<and> lg ! j = Num w \<longrightarrow> w < u"
  proof (intro allI impI)
    fix j w assume h: "j < nat ?t \<and> lg ! j = Num w"
    then have "0 \<le> int j \<and> int j < ?t \<and> lg ! nat (int j) = Num w" by (simp add: zless_nat_eq_int_zless)
    with inv(5) show "w < u" by blast
  qed
  show ?thesis unfolding eq using inv(1,3) a b c by blast
qed

lemma sample_token_greedy_argmax:
  fixes eng :: "('m, 'c, 'v, 's::linorder) engine"
  assumes "model ctx = Some m" "context_ptr ctx = Some c"
    and "1 \<le> llama_vocab_n_tokens eng (llama_model_get_vocab eng m)"
    and "llama_vocab_n_tokens eng (llama_model_get_vocab eng m) = int (length xs)"
  shows "0 \<le> sample_token_greedy eng (Some ctx) (Some (map Num xs)) \<and>
         nat (sample_token_greedy eng (Some ctx) (Some (map Num xs))) < length xs \<and>
         (\<forall>j < length xs. xs ! j \<le> xs ! nat (sample_token_greedy eng (Some ctx) (Some (map Num xs)))) \<and>
         (\<forall>j < nat (sample_token_greedy eng (Some ctx) (Some (map Num xs))).
            xs ! j < xs ! nat (sample_token_greedy eng (Some ctx) (Some (map Num xs))))"
proof -
  let ?lg = "map Num xs"
  let ?t = "sample_token_greedy eng (Some ctx) (Some ?lg)"
  have n: "llama_vocab_n_tokens eng (llama_model_get_vocab eng m) = int (length ?lg)"
    using assms(4) by simp
  have pos: "0 < length xs" using assms(3,4) by linarith
  then have z: "?lg ! 0 \<noteq> NaN" by simp
  from sample_token_greedy_first_number[OF assms(1,2,3) n z]
  obtain u where inv: "0 \<le> ?t" "nat ?t < length ?lg" "?lg ! nat ?t = Num u"
      "\<forall>j w. j < length ?lg \<and> ?lg ! j = Num w \<longrightarrow> w \<le> u"
      "\<forall>j w. j < nat ?t \<and> ?lg ! j = Num w \<longrightarrow> w < u"
    by blast
  have r: "nat ?t < length xs" using inv(2) by simp
  have u: "u = xs ! nat ?t" using inv(3) r by simp
  have b: "\<forall>j < length xs. xs ! j \<le> xs ! nat ?t"
  proof (intro allI impI)
    fix j assume h: "j < length xs"
    then have "j < length ?lg \<and> ?lg ! j = Num (xs ! j)" by simp
    with inv(4) have "xs ! j \<le> u" by blast
    then show "xs ! j \<le> xs ! nat ?t" unfolding u .
  qed
  have c: "\<forall>j < nat ?t. xs ! j < xs ! nat ?t"
  proof (intro allI impI)
    fix j assume h: "j < nat ?t"
    then have "j < nat ?t \<and> ?lg ! j = Num (xs ! j)" using r by simp
    with inv(5) have "xs ! j < u" by blast
    then show "xs ! j < xs ! nat ?t" unfolding u .
  qed
  show ?thesis using inv(1) r b c by blast
qed

lemma generate_step_continue:
  assumes "generate_step eng ctx vocab i gv = Continue gv'"
  shows "\<exists>lg. llama_get_logits_ith eng (gen_context gv) (batch_n_tokens (gen_batch gv) - 1) = Some lg \<and>
      \<not> llama_vocab_is_eog eng vocab (sample_token_greedy eng (Some (session_of ctx gv)) (Some lg)) \<and>
      gen_tokens gv' = gen_tokens gv @ [sample_token_greedy eng (Some (session_of ctx gv)) (Some lg)] \<and>
      gen_result gv' = gen_result gv @
         piece_text eng vocab (sample_token_greedy eng (Some (session_of ctx gv)) (Some lg))"
  using assms
  by (auto simp: generate_step_def Let_def split: option.splits if_splits)

lemma generate_step_appends_greedy:
  assumes "llama_get_logits_ith eng (gen_context gv) (batch_n_tokens (gen_batch gv) - 1) = Some logits"
    and "\<not> llama_vocab_is_eog eng vocab (sample_token_greedy eng (Some (session_of ctx gv)) (Some logits))"
    and "\<not> (0 < fst (llama_token_to_piece eng vocab
                     (sample_token_greedy eng (Some (session_of ctx gv)) (Some logits)) 256 0 False) \<and>
            bad_alloc eng (Result_append i))"
    and "\<not> bad_alloc eng (Tokens_push_back i)"
  shows "\<exists>gv'. (generate_step eng ctx vocab i gv = Break gv' \<or>
                generate_step eng ctx vocab i gv = Continue gv') \<and>
               gen_tokens gv' =
                 gen_tokens gv @ [sample_token_greedy eng (Some (session_of ctx gv)) (Some logits)]"
  using assms by (simp add: generate_step_def Let_def)

lemma generate_step_tokens:
  assumes "generate_step eng ctx vocab i gv = r" "r = Break gv' \<or> r = Throw gv' \<or> r = Continue gv'"
  shows "gen_tokens gv' = gen_tokens gv \<or>
     (\<exists>logits. llama_get_logits_ith eng (gen_context gv) (batch_n_tokens (gen_batch gv) - 1) = Some logits \<and>
        gen_tokens gv' =
          gen_tokens gv @ [sample_token_greedy eng (Some (session_of ctx gv)) (Some logits)])"
  using assms
  by (auto simp: generate_step_def Let_def split: option.splits if_splits)

lemma generate_ignores_sampling_parameters:
  "nativeGenerateText eng env st handle prompt maxTokens temperature topP topK =
   nativeGenerateText eng env st handle prompt maxTokens temperature' topP' topK'"
  by (simp add: nativeGenerateText_def)

subsection \<open>Loading and releasing\<close>

lemma sint_uint_32: "uint (w :: 32 word) < 2 ^ 31 \<Longrightarrow> sint w = uint w"
proof -
  assume b: "uint w < 2 ^ 31"
  have c: "0 \<le> uint w" by simp
  have "- (2 ^ 31) \<le> uint w" using c by (rule order_trans[rotated]) simp
  then have "signed_take_bit (31::nat) (uint w) = uint w"
    using b by (rule signed_take_bit_int_eq_self)
  then show ?thesis by (simp add: sint_uint)
qed

lemma load_params_threads:
  "(0 < threads \<longrightarrow>
      n_threads (load_context_params eng contextSize threads) = threads \<and>
      n_threads_batch (load_context_params eng contextSize threads) = threads) \<and>
   (threads = -1 \<and> 0 < hardware_concurrency eng \<longrightarrow>
      n_threads (load_context_params eng contextSize threads) = sint (hardware_concurrency eng) \<and>
      n_threads_batch (load_context_params eng contextSize threads) = sint (hardware_concurrency eng)) \<and>
   (threads = -1 \<and> hardware_concurrency eng = 0 \<longrightarrow>
      n_threads (load_context_params eng contextSize threads) = 4 \<and>
      n_threads_batch (load_context_params eng contextSize threads) = 4) \<and>
   (threads \<le> 0 \<and> threads \<noteq> -1 \<longrightarrow>
      n_threads (load_context_params eng contextSize threads) = 4 \<and>
      n_threads_batch (load_context_params eng contextSize threads) = 4)"
  by (simp add: load_context_params_def Let_def)

lemma load_params_threads_positive:
  assumes "threads = -1 \<longrightarrow> uint (hardware_concurrency eng) < 2 ^ 31"
  shows "0 < n_threads (load_context_params eng contextSize threads) \<and>
         0 < n_threads_batch (load_context_params eng contextSize threads)"
proof (cases "threads = -1 \<and> 0 < hardware_concurrency eng")
  case False
  then show ?thesis by (auto simp: load_context_params_def Let_def)
next
  case True
  then have s: "sint (hardware_concurrency eng) = uint (hardware_concurrency eng)"
    using assms by (simp add: sint_uint_32)
  have "0 < uint (hardware_concurrency eng)" using True by (simp add: word_less_def)
  then show ?thesis using True s by (simp add: load_context_params_def Let_def)
qed


lemma load_success_session:
  assumes "nativeLoadModel eng env st modelPath contextSize threads = (h, st')"
      and "g_contexts st' k = Some s" "g_contexts st k \<noteq> Some s"
  shows "\<exists>e m. env = Some e \<and> h = k \<and> 
      llama_model_load_from_file eng (jstring_to_string e modelPath) (load_model_params eng) = Some m \<and>
      model s = Some m \<and>
      context_ptr s = llama_init_from_model eng m
         (load_context_params eng (if contextSize \<le> 0 then 2048 else contextSize) threads) \<and> context_ptr s \<noteq> None"
  using assms
  by (auto simp: nativeLoadModel_def Let_def destroy_def split: option.splits if_splits)

text \<open>
  The narrowing of the hardware concurrency can give a count that is not positive.
\<close>

lemma load_params_threads_narrowing:
  "n_threads (load_context_params (eng\<lparr>hardware_concurrency := 2 ^ 31\<rparr>) contextSize (-1)) =
     - 2147483648"
  by (simp add: load_context_params_def Let_def)

lemma load_success_registers:
  assumes "env = Some e" "modelPath \<noteq> None" "jstring_to_string e modelPath \<noteq> []"
    and "\<not> bad_alloc eng Path_string" "\<not> bad_alloc eng Session_object"
    and "\<not> bad_alloc eng Tokens_reserve" "\<not> bad_alloc eng Registry_insert"
    and "llama_model_load_from_file eng (jstring_to_string e modelPath) (load_model_params eng) = Some m"
    and "llama_init_from_model eng m
           (load_context_params eng (if contextSize \<le> 0 then 2048 else contextSize) threads) = Some c"
  shows "fst (nativeLoadModel eng env st modelPath contextSize threads) = g_next_handle st \<and>
         g_contexts (snd (nativeLoadModel eng env st modelPath contextSize threads)) (g_next_handle st) =
           Some \<lparr>model = Some m, context_ptr = Some c, tokens = [], rng = random_device eng\<rparr>"
proof -
  obtain p where p: "modelPath = Some p" using assms(2) by blast
  show ?thesis
  proof (cases "contextSize \<le> 0")
    case True
    then show ?thesis
      using assms(1,3-9) unfolding p
      by (simp add: nativeLoadModel_def Let_def destroy_def split: option.splits)
  next
    case False
    then show ?thesis
      using assms(1,3-9) unfolding p
      by (simp add: nativeLoadModel_def Let_def destroy_def split: option.splits)
  qed
qed

lemma cleanup_absent: "handle = 0 \<or> g_contexts st handle = None \<Longrightarrow> nativeCleanup st handle = st"
  by (auto simp: nativeCleanup_def)

lemma cleanup_removes: "handle \<noteq> 0 \<Longrightarrow> g_contexts (nativeCleanup st handle) handle = None"
  by (auto simp: nativeCleanup_def destroy_def split: option.splits)

lemma cleanup_twice: "nativeCleanup (nativeCleanup st handle) handle = nativeCleanup st handle"
  by (cases "handle = 0") (simp_all add: cleanup_absent cleanup_removes)

lemma cleanup_many: "((\<lambda>s. nativeCleanup s handle) ^^ Suc n) st = nativeCleanup st handle"
  by (induction n) (simp_all add: cleanup_twice)

lemma cleanup_others: "k \<noteq> handle \<Longrightarrow> g_contexts (nativeCleanup st handle) k = g_contexts st k"
  by (auto simp: nativeCleanup_def destroy_def split: option.splits)

subsection \<open>Handles\<close>

lemma load_cases:
  assumes "nativeLoadModel eng env st modelPath contextSize threads = (h, st')"
  shows "(h = 0 \<and> g_contexts st' = g_contexts st \<and>
            (g_next_handle st' = g_next_handle st \<or> g_next_handle st' = g_next_handle st + 1)) \<or>
         (h = g_next_handle st \<and> g_next_handle st' = g_next_handle st + 1 \<and>
            (\<exists>s. g_contexts st' = (g_contexts st)(h \<mapsto> s) \<and> model s \<noteq> None \<and> context_ptr s \<noteq> None))"
  using assms
  by (auto simp: nativeLoadModel_def Let_def destroy_def split: option.splits if_splits)

lemma generate_frame:
  "g_next_handle (snd (nativeGenerateText eng env st handle prompt maxTokens temperature topP topK)) =
     g_next_handle st \<and>
   dom (g_contexts (snd (nativeGenerateText eng env st handle prompt maxTokens temperature topP topK))) =
     dom (g_contexts st)"
  by (auto simp: nativeGenerateText_def get_context_def Let_def split: option.splits if_splits)

lemma cleanup_frame:
  "g_next_handle (nativeCleanup st handle) = g_next_handle st \<and>
   dom (g_contexts (nativeCleanup st handle)) \<subseteq> dom (g_contexts st)"
  by (auto simp: nativeCleanup_def destroy_def split: option.splits if_splits)

lemma unat_succ_64: "unat (w :: 64 word) < 2 ^ 63 \<Longrightarrow> unat (w + 1) = unat w + 1"
  by (simp add: unat_word_ariths)

lemma sint_unat_64: "unat (w :: 64 word) < 2 ^ 63 \<Longrightarrow> sint w = int (unat w)"
proof -
  assume a: "unat w < 2 ^ 63"
  have "int (unat w) < 2 ^ 63" using a by (metis of_nat_less_iff of_nat_numeral of_nat_power)
  then have b: "uint w < 2 ^ 63" by simp
  have c: "0 \<le> uint w" by simp
  have "- (2 ^ 63) \<le> uint w" using c by (rule order_trans[rotated]) simp
  then have "signed_take_bit (63::nat) (uint w) = uint w"
    using b by (rule signed_take_bit_int_eq_self)
  then show ?thesis by (simp add: sint_uint)
qed

text \<open>One call: the counter moves by at most one, and a handle it returns is the old counter.\<close>

lemma run_call_step:
  assumes nz: "1 \<le> unat (g_next_handle st)" and small: "unat (g_next_handle st) < 2 ^ 63"
    and inv: "\<forall>h\<in>dom (g_contexts st). 1 \<le> unat h \<and> unat h < unat (g_next_handle st)"
  shows "unat (g_next_handle st) \<le> unat (g_next_handle (snd (run_call c st))) \<and>
         unat (g_next_handle (snd (run_call c st))) \<le> unat (g_next_handle st) + 1 \<and>
         (\<forall>h\<in>dom (g_contexts (snd (run_call c st))).
             1 \<le> unat h \<and> unat h < unat (g_next_handle (snd (run_call c st)))) \<and>
         dom (g_contexts (snd (run_call c st))) \<subseteq> dom (g_contexts st) \<union> set (issued [fst (run_call c st)]) \<and>
         (\<forall>h\<in>set (issued [fst (run_call c st)]).
             h = g_next_handle st \<and>
             unat (g_next_handle (snd (run_call c st))) = unat (g_next_handle st) + 1)"
proof (cases c)
  case (Load eng env modelPath contextSize threads)
  obtain h st' where r: "nativeLoadModel eng env st modelPath contextSize threads = (h, st')"
    by (cases "nativeLoadModel eng env st modelPath contextSize threads")
  have rc: "run_call c st = (Handle h, st')" using Load r by simp
  have nx: "unat (g_next_handle st + 1) = unat (g_next_handle st) + 1"
    using small by (rule unat_succ_64)
  have weak: "\<forall>h\<in>dom (g_contexts st). 1 \<le> unat h \<and> unat h < n"
    if "unat (g_next_handle st) \<le> n" for n
    using inv that by (meson order_less_le_trans)
  from load_cases[OF r] show ?thesis
  proof
    assume a: "h = 0 \<and> g_contexts st' = g_contexts st \<and>
            (g_next_handle st' = g_next_handle st \<or> g_next_handle st' = g_next_handle st + 1)"
    then have b: "unat (g_next_handle st') = unat (g_next_handle st) \<or>
               unat (g_next_handle st') = unat (g_next_handle st) + 1"
      using nx by auto
    then have "unat (g_next_handle st) \<le> unat (g_next_handle st')" by auto
    from weak[OF this] b a rc show ?thesis by auto
  next
    assume a: "h = g_next_handle st \<and> g_next_handle st' = g_next_handle st + 1 \<and>
            (\<exists>s. g_contexts st' = (g_contexts st)(h \<mapsto> s) \<and> model s \<noteq> None \<and> context_ptr s \<noteq> None)"
    then have d: "dom (g_contexts st') = insert h (dom (g_contexts st))" by auto
    have h0: "h \<noteq> 0" using a nz by auto
    have n': "unat (g_next_handle st') = unat (g_next_handle st) + 1" using a nx by simp
    then have "unat (g_next_handle st) \<le> unat (g_next_handle st')" by simp
    from weak[OF this] have w: "\<forall>k\<in>dom (g_contexts st). 1 \<le> unat k \<and> unat k < unat (g_next_handle st')" .
    have hb: "1 \<le> unat h \<and> unat h < unat (g_next_handle st')" using a n' nz by simp
    have i': "\<forall>k\<in>dom (g_contexts st'). 1 \<le> unat k \<and> unat k < unat (g_next_handle st')"
      unfolding d using w hb by blast
    have iss: "issued [fst (run_call c st)] = [h]" using rc h0 by simp
    show ?thesis unfolding iss using rc i' n' d a by simp
  qed
next
  case (Generate eng env handle prompt maxTokens temperature topP topK)
  then show ?thesis using generate_frame[of eng env st handle prompt maxTokens temperature topP topK] inv
    by (simp add: Let_def)
next
  case (Cleanup handle)
  have f: "g_next_handle (nativeCleanup st handle) = g_next_handle st"
    and g: "dom (g_contexts (nativeCleanup st handle)) \<subseteq> dom (g_contexts st)"
    using cleanup_frame[of st handle] by simp_all
  have "\<forall>h\<in>dom (g_contexts (nativeCleanup st handle)).
          1 \<le> unat h \<and> unat h < unat (g_next_handle st)"
    using g inv by blast
  then show ?thesis using Cleanup f g by simp
qed

lemma issued_Cons: "issued (r # rs) = issued [r] @ issued rs"
  by (cases r) simp_all

lemma run_handles:
  assumes "1 \<le> unat (g_next_handle st)" and "unat (g_next_handle st) + length cs < 2 ^ 63"
    and "\<forall>h\<in>dom (g_contexts st). 1 \<le> unat h \<and> unat h < unat (g_next_handle st)"
  shows "unat (g_next_handle st) \<le> unat (g_next_handle (snd (run cs st))) \<and>
         unat (g_next_handle (snd (run cs st))) \<le> unat (g_next_handle st) + length cs \<and>
         (\<forall>h\<in>dom (g_contexts (snd (run cs st))).
             1 \<le> unat h \<and> unat h < unat (g_next_handle (snd (run cs st)))) \<and>
         dom (g_contexts (snd (run cs st))) \<subseteq> dom (g_contexts st) \<union> set (issued (fst (run cs st))) \<and>
         (\<forall>h\<in>set (issued (fst (run cs st))).
             unat (g_next_handle st) \<le> unat h \<and> unat h < unat (g_next_handle (snd (run cs st)))) \<and>
         sorted_wrt (\<lambda>a b. unat a < unat b) (issued (fst (run cs st)))"
  using assms
proof (induction cs arbitrary: st)
  case Nil
  then show ?case by simp
next
  case (Cons c cs)
  let ?r = "fst (run_call c st)" and ?s1 = "snd (run_call c st)"
  let ?rs = "fst (run cs ?s1)" and ?s2 = "snd (run cs ?s1)"
  have small: "unat (g_next_handle st) < 2 ^ 63" using Cons.prems(2) by simp
  from run_call_step[OF Cons.prems(1) small Cons.prems(3), of c]
  have a1: "unat (g_next_handle st) \<le> unat (g_next_handle ?s1)"
    and a2: "unat (g_next_handle ?s1) \<le> unat (g_next_handle st) + 1"
    and a3: "\<forall>h\<in>dom (g_contexts ?s1). 1 \<le> unat h \<and> unat h < unat (g_next_handle ?s1)"
    and a4: "dom (g_contexts ?s1) \<subseteq> dom (g_contexts st) \<union> set (issued [?r])"
    and a5: "\<forall>h\<in>set (issued [?r]). h = g_next_handle st \<and>
               unat (g_next_handle ?s1) = unat (g_next_handle st) + 1"
    by blast+
  have p1: "1 \<le> unat (g_next_handle ?s1)" using a1 Cons.prems(1) by simp
  have p2: "unat (g_next_handle ?s1) + length cs < 2 ^ 63" using a2 Cons.prems(2) by simp
  from Cons.IH[OF p1 p2 a3]
  have b1: "unat (g_next_handle ?s1) \<le> unat (g_next_handle ?s2)"
    and b2: "unat (g_next_handle ?s2) \<le> unat (g_next_handle ?s1) + length cs"
    and b3: "\<forall>h\<in>dom (g_contexts ?s2). 1 \<le> unat h \<and> unat h < unat (g_next_handle ?s2)"
    and b4: "dom (g_contexts ?s2) \<subseteq> dom (g_contexts ?s1) \<union> set (issued ?rs)"
    and b5: "\<forall>h\<in>set (issued ?rs). unat (g_next_handle ?s1) \<le> unat h \<and>
               unat h < unat (g_next_handle ?s2)"
    and b6: "sorted_wrt (\<lambda>a b. unat a < unat b) (issued ?rs)"
    by blast+
  have run_eq: "run (c # cs) st = (?r # ?rs, ?s2)" by (simp add: Let_def)
  have iss: "issued (fst (run (c # cs) st)) = issued [?r] @ issued ?rs"
    unfolding run_eq by (simp add: issued_Cons[of ?r ?rs])
  have st2: "snd (run (c # cs) st) = ?s2" unfolding run_eq by simp
  have c1: "unat (g_next_handle st) \<le> unat (g_next_handle ?s2)" using a1 b1 by simp
  have c2: "unat (g_next_handle ?s2) \<le> unat (g_next_handle st) + length (c # cs)"
    using a2 b2 by simp
  have c4: "dom (g_contexts ?s2) \<subseteq> dom (g_contexts st) \<union> set (issued [?r] @ issued ?rs)"
    using a4 b4 unfolding set_append by blast
  have c5: "\<forall>h\<in>set (issued [?r] @ issued ?rs).
              unat (g_next_handle st) \<le> unat h \<and> unat h < unat (g_next_handle ?s2)"
  proof
    fix h assume "h \<in> set (issued [?r] @ issued ?rs)"
    then consider "h \<in> set (issued [?r])" | "h \<in> set (issued ?rs)" by auto
    then show "unat (g_next_handle st) \<le> unat h \<and> unat h < unat (g_next_handle ?s2)"
    proof cases
      case 1
      with a5 have "h = g_next_handle st" "unat (g_next_handle ?s1) = unat (g_next_handle st) + 1"
        by blast+
      then show ?thesis using b1 by simp
    next
      case 2
      with b5 have "unat (g_next_handle ?s1) \<le> unat h \<and> unat h < unat (g_next_handle ?s2)"
        by blast
      then show ?thesis using a1 by simp
    qed
  qed
  have c6: "sorted_wrt (\<lambda>a b. unat a < unat b) (issued [?r] @ issued ?rs)"
  proof -
    have "\<forall>x\<in>set (issued [?r]). \<forall>y\<in>set (issued ?rs). unat x < unat y"
    proof (intro ballI)
      fix x y assume x: "x \<in> set (issued [?r])" and y: "y \<in> set (issued ?rs)"
      from a5 x have "x = g_next_handle st" "unat (g_next_handle ?s1) = unat (g_next_handle st) + 1"
        by blast+
      moreover from b5 y have "unat (g_next_handle ?s1) \<le> unat y" by blast
      ultimately show "unat x < unat y" by simp
    qed
    moreover have "sorted_wrt (\<lambda>a b. unat a < unat b) (issued [?r])"
      by (cases ?r) simp_all
    ultimately show ?thesis using b6 by (simp add: sorted_wrt_append)
  qed
  show ?case unfolding iss st2 using c1 c2 b3 c4 c5 c6 by blast
qed

lemma sorted_unat_distinct: "sorted_wrt (\<lambda>a b. unat a < unat b) (hs :: jlong list) \<Longrightarrow> distinct hs"
  by (induction hs) auto

lemma run_initial_dom:
  fixes cs :: "('m, 'c, 'v, 's::linorder) call list"
  assumes "Suc (length cs) < 2 ^ 63"
  shows "dom (g_contexts (snd (run cs initial_registry))) \<subseteq> set (issued (fst (run cs initial_registry)))"
proof -
  let ?i = "initial_registry :: ('m, 'c) registry"
  have i1: "1 \<le> unat (g_next_handle ?i)" by (simp add: initial_registry_def)
  have i2: "unat (g_next_handle ?i) + length cs < 2 ^ 63"
    using assms by (simp add: initial_registry_def)
  have i3: "\<forall>h\<in>dom (g_contexts ?i). 1 \<le> unat h \<and> unat h < unat (g_next_handle ?i)"
    by (simp add: initial_registry_def)
  from run_handles[OF i1 i2 i3]
  have "dom (g_contexts (snd (run cs ?i))) \<subseteq> dom (g_contexts ?i) \<union> set (issued (fst (run cs ?i)))"
    by blast
  then show ?thesis by (simp add: initial_registry_def)
qed

lemma example_issued: "issued (fst (run example_calls initial_registry)) = [1, 2, 3]"
  by code_simp

text \<open>
  Claim C3. Over any sequence of calls made on the initial registry, the handles that the
  successful loads return are positive (as signed 64-bit values), strictly increasing in the
  order they were issued, pairwise distinct and never 0; every session in the registry sits
  under one of them, and the handle of a further successful load is not in the registry and
  was not issued before, so no two sessions share a handle. The sequence is shorter than
  \<open>2 ^ 63 - 1\<close> calls, so that the 64-bit counter has not run out.
\<close>

theorem handles_positive_distinct_increasing:
  fixes cs :: "('m, 'c, 'v, 's::linorder) call list"
  assumes "Suc (length cs) < 2 ^ 63"
  shows "sorted_wrt (\<lambda>a b. sint a < sint b) (issued (fst (run cs initial_registry))) \<and>
         (\<forall>h\<in>set (issued (fst (run cs initial_registry))). 0 < sint h) \<and>
         distinct (issued (fst (run cs initial_registry))) \<and>
         0 \<notin> set (issued (fst (run cs initial_registry))) \<and>
         dom (g_contexts (snd (run cs initial_registry))) \<subseteq> set (issued (fst (run cs initial_registry))) \<and>
         (\<forall>(eng :: ('m, 'c, 'w, 't::linorder) engine) env modelPath contextSize threads.
            fst (nativeLoadModel eng env (snd (run cs initial_registry)) modelPath contextSize threads) \<noteq> 0 \<longrightarrow>
            fst (nativeLoadModel eng env (snd (run cs initial_registry)) modelPath contextSize threads)
              \<notin> set (issued (fst (run cs initial_registry))) \<and>
            g_contexts (snd (run cs initial_registry))
              (fst (nativeLoadModel eng env (snd (run cs initial_registry)) modelPath contextSize threads)) = None)"
proof -
  let ?i = "initial_registry :: ('m, 'c) registry"
  let ?hs = "issued (fst (run cs ?i))" and ?st = "snd (run cs ?i)"
  have i1: "1 \<le> unat (g_next_handle ?i)" by (simp add: initial_registry_def)
  have i2: "unat (g_next_handle ?i) + length cs < 2 ^ 63"
    using assms by (simp add: initial_registry_def)
  have i3: "\<forall>h\<in>dom (g_contexts ?i). 1 \<le> unat h \<and> unat h < unat (g_next_handle ?i)"
    by (simp add: initial_registry_def)
  from run_handles[OF i1 i2 i3]
  have b2: "unat (g_next_handle ?st) \<le> unat (g_next_handle ?i) + length cs"
    and b3: "\<forall>h\<in>dom (g_contexts ?st). 1 \<le> unat h \<and> unat h < unat (g_next_handle ?st)"
    and b4: "dom (g_contexts ?st) \<subseteq> dom (g_contexts ?i) \<union> set ?hs"
    and b5: "\<forall>h\<in>set ?hs. unat (g_next_handle ?i) \<le> unat h \<and> unat h < unat (g_next_handle ?st)"
    and b6: "sorted_wrt (\<lambda>a b. unat a < unat b) ?hs"
    by blast+
  have nb: "unat (g_next_handle ?st) < 2 ^ 63" using b2 assms by (simp add: initial_registry_def)
  have rng: "1 \<le> unat h \<and> unat h < 2 ^ 63" if "h \<in> set ?hs" for h
  proof -
    from b5 that have "unat (g_next_handle ?i) \<le> unat h \<and> unat h < unat (g_next_handle ?st)" by blast
    then show ?thesis using nb by (simp add: initial_registry_def)
  qed
  have sg: "sint h = int (unat h)" if "h \<in> set ?hs" for h
    using rng[OF that] by (simp add: sint_unat_64)
  have c1: "sorted_wrt (\<lambda>a b. sint a < sint b) ?hs"
    using b6
  proof (rule sorted_wrt_mono_rel[rotated])
    fix x y assume "x \<in> set ?hs" "y \<in> set ?hs" "unat x < unat y"
    then show "sint x < sint y" by (metis sg of_nat_less_iff)
  qed
  have c2: "\<forall>h\<in>set ?hs. 0 < sint h"
  proof
    fix h assume h: "h \<in> set ?hs"
    have "0 < int (unat h)" using rng[OF h] by linarith
    then show "0 < sint h" using sg[OF h] by metis
  qed
  have c3: "distinct ?hs" using b6 by (rule sorted_unat_distinct)
  have c4: "0 \<notin> set ?hs"
  proof
    assume "0 \<in> set ?hs"
    from rng[OF this] show False by simp
  qed
  have c5: "dom (g_contexts ?st) \<subseteq> set ?hs" using b4 by (simp add: initial_registry_def)
  have c6: "fst (nativeLoadModel eng env ?st modelPath contextSize threads) \<notin> set ?hs \<and>
            g_contexts ?st (fst (nativeLoadModel eng env ?st modelPath contextSize threads)) = None"
    if nz: "fst (nativeLoadModel eng env ?st modelPath contextSize threads) \<noteq> 0"
    for eng :: "('m, 'c, 'w, 't::linorder) engine" and env modelPath contextSize threads
  proof -
    obtain h st' where r: "nativeLoadModel eng env ?st modelPath contextSize threads = (h, st')"
      by (cases "nativeLoadModel eng env ?st modelPath contextSize threads")
    from load_cases[OF r] nz r have hn: "h = g_next_handle ?st" by auto
    have "h \<notin> set ?hs" using b5 hn by auto
    moreover have "h \<notin> dom (g_contexts ?st)" using b3 hn by auto
    ultimately show ?thesis using r by auto
  qed
  have c6': "\<forall>(eng :: ('m, 'c, 'w, 't::linorder) engine) env modelPath contextSize threads.
            fst (nativeLoadModel eng env ?st modelPath contextSize threads) \<noteq> 0 \<longrightarrow>
            fst (nativeLoadModel eng env ?st modelPath contextSize threads) \<notin> set ?hs \<and>
            g_contexts ?st (fst (nativeLoadModel eng env ?st modelPath contextSize threads)) = None"
    by (intro allI impI) (rule c6)
  show ?thesis by (intro conjI c1 c2 c3 c4 c5 c6')
qed

theorem handles_positive_distinct_increasing_example:
  "Suc (length example_calls) < 2 ^ 63 \<and>
   issued (fst (run example_calls initial_registry)) = [1, 2, 3] \<and>
   sorted_wrt (\<lambda>a b. sint a < sint b) (issued (fst (run example_calls initial_registry))) \<and>
   distinct (issued (fst (run example_calls initial_registry))) \<and>
   dom (g_contexts (snd (run example_calls initial_registry)))
     \<subseteq> set (issued (fst (run example_calls initial_registry)))"
proof -
  have h: "Suc (length example_calls) < 2 ^ 63" by (simp add: example_calls_def)
  from handles_positive_distinct_increasing[OF h] h example_issued show ?thesis by blast
qed

text \<open>
  Claim C1. A load fails when the environment or the path is null, the path is empty, the
  engine does not load the model or does not make the context, or an allocation in the
  \<open>try\<close> block throws. Then the call returns 0 and the map of sessions is the one it was.
  Otherwise the call returns the next handle and puts one session under it, whose model
  and context are both there: a session that is only partly built never enters the map.
\<close>

theorem load_failure_returns_zero_and_keeps_registry:
  "if env = None \<or> modelPath = None \<or>
      (\<exists>e. env = Some e \<and> jstring_to_string e modelPath = []) \<or>
      (\<exists>e. env = Some e \<and>
           llama_model_load_from_file eng (jstring_to_string e modelPath) (load_model_params eng) = None) \<or>
      (\<exists>e m. env = Some e \<and>
           llama_model_load_from_file eng (jstring_to_string e modelPath) (load_model_params eng) = Some m \<and>
           llama_init_from_model eng m
             (load_context_params eng (if contextSize \<le> 0 then 2048 else contextSize) threads) = None) \<or>
      bad_alloc eng Path_string \<or> bad_alloc eng Session_object \<or>
      bad_alloc eng Tokens_reserve \<or> bad_alloc eng Registry_insert
   then fst (nativeLoadModel eng env st modelPath contextSize threads) = 0 \<and>
        g_contexts (snd (nativeLoadModel eng env st modelPath contextSize threads)) = g_contexts st
   else fst (nativeLoadModel eng env st modelPath contextSize threads) = g_next_handle st \<and>
        (\<exists>s. g_contexts (snd (nativeLoadModel eng env st modelPath contextSize threads)) =
               (g_contexts st)(g_next_handle st \<mapsto> s) \<and>
             model s \<noteq> None \<and> context_ptr s \<noteq> None)"
proof (cases env)
  case None
  then show ?thesis by (simp add: nativeLoadModel_def Let_def)
next
  case (Some e)
  show ?thesis
  proof (cases modelPath)
    case None
    then show ?thesis using Some by (simp add: nativeLoadModel_def Let_def)
  next
    case (Some p)
    note mp = Some
    show ?thesis
    proof (cases "llama_model_load_from_file eng (jstring_to_string e modelPath) (load_model_params eng)")
      case None
      then show ?thesis using \<open>env = Some e\<close> mp
        by (simp add: nativeLoadModel_def Let_def destroy_def)
    next
      case (Some m)
      then show ?thesis using \<open>env = Some e\<close> mp
        by (cases "llama_init_from_model eng m
             (load_context_params eng (if contextSize \<le> 0 then 2048 else contextSize) threads)")
           (auto simp: nativeLoadModel_def Let_def destroy_def split: option.splits)
    qed
  qed
qed

theorem load_failure_example:
  "fst (nativeLoadModel (example_engine 8 8) (Some example_env) example_registry (Some []) 8 4) = 0 \<and>
   g_contexts (snd (nativeLoadModel (example_engine 8 8) (Some example_env) example_registry
                      (Some []) 8 4)) = g_contexts example_registry \<and>
   fst (nativeLoadModel (example_engine 8 8) (Some example_env) example_registry
          (Some ''missing.gguf'') 8 4) = 0 \<and>
   g_contexts (snd (nativeLoadModel (example_engine 8 8) (Some example_env) example_registry
                      (Some ''missing.gguf'') 8 4)) = g_contexts example_registry \<and>
   fst (nativeLoadModel (example_engine 8 8) (Some example_env) example_registry
          (Some ''model.gguf'') 2 4) = 0 \<and>
   g_contexts (snd (nativeLoadModel (example_engine 8 8) (Some example_env) example_registry
                      (Some ''model.gguf'') 2 4)) = g_contexts example_registry \<and>
   fst (nativeLoadModel ((example_engine 8 8)\<lparr>bad_alloc := (\<lambda>site. site = Tokens_reserve)\<rparr>)
          (Some example_env) example_registry (Some ''model.gguf'') 8 4) = 0 \<and>
   g_contexts (snd (nativeLoadModel ((example_engine 8 8)\<lparr>bad_alloc := (\<lambda>site. site = Tokens_reserve)\<rparr>)
                      (Some example_env) example_registry (Some ''model.gguf'') 8 4)) =
     g_contexts example_registry"
  using
    load_failure_returns_zero_and_keeps_registry
      [where env = "Some example_env" and modelPath = "Some []" and eng = "example_engine 8 8"
         and contextSize = 8 and threads = 4 and st = example_registry]
    load_failure_returns_zero_and_keeps_registry
      [where env = "Some example_env" and modelPath = "Some ''missing.gguf''"
         and eng = "example_engine 8 8" and contextSize = 8 and threads = 4
         and st = example_registry]
    load_failure_returns_zero_and_keeps_registry
      [where env = "Some example_env" and modelPath = "Some ''model.gguf''"
         and eng = "example_engine 8 8" and contextSize = 2 and threads = 4
         and st = example_registry]
    load_failure_returns_zero_and_keeps_registry
      [where env = "Some example_env" and modelPath = "Some ''model.gguf''"
         and eng = "(example_engine 8 8)\<lparr>bad_alloc := (\<lambda>site. site = Tokens_reserve)\<rparr>"
         and contextSize = 8 and threads = 4 and st = example_registry]
  by (simp add: example_engine_def example_env_def jstring_to_string_def load_model_params_def
        load_context_params_def)

text \<open>
  Claim C2. Cleanup of handle 0, or of a handle that has no session in the registry, returns
  the registry as it was: no session changes and no engine call is made. A handle that no
  load of the run has returned has no session, so its cleanup changes nothing either. After
  a cleanup the handle has no session, so calling cleanup once more, or any number of times,
  gives what one call gives, and the model and the context are released once. The sessions
  under other handles are never touched.
\<close>

theorem cleanup_invalid_handle_is_noop:
  fixes cs :: "('m, 'c, 'v, 's::linorder) call list" and st :: "('m, 'c) registry"
  shows
  "(handle = 0 \<or> g_contexts st handle = None \<longrightarrow> nativeCleanup st handle = st) \<and>
   (Suc (length cs) < 2 ^ 63 \<and> handle \<notin> set (issued (fst (run cs initial_registry))) \<longrightarrow>
      nativeCleanup (snd (run cs initial_registry)) handle = snd (run cs initial_registry)) \<and>
   (handle \<noteq> 0 \<longrightarrow> g_contexts (nativeCleanup st handle) handle = None) \<and>
   ((\<lambda>s. nativeCleanup s handle) ^^ Suc n) st = nativeCleanup st handle \<and>
   (\<forall>k. k \<noteq> handle \<longrightarrow> g_contexts (nativeCleanup st handle) k = g_contexts st k)"
proof -
  have never: "nativeCleanup (snd (run cs initial_registry)) handle = snd (run cs initial_registry)"
    if "Suc (length cs) < 2 ^ 63" "handle \<notin> set (issued (fst (run cs initial_registry)))"
  proof -
    from run_initial_dom[OF that(1)] that(2)
    have "handle \<notin> dom (g_contexts (snd (run cs initial_registry)))" by blast
    then have "g_contexts (snd (run cs initial_registry)) handle = None" by blast
    then show ?thesis by (simp add: cleanup_absent)
  qed
  show ?thesis
    using never cleanup_absent[where handle = handle and st = st]
      cleanup_removes[where handle = handle and st = st]
      cleanup_many[where handle = handle and st = st and n = n]
      cleanup_others[where handle = handle and st = st]
    by blast
qed

theorem cleanup_invalid_handle_example:
  "g_contexts (snd (run example_calls initial_registry)) 1 = None \<and>
   nativeCleanup (snd (run example_calls initial_registry)) 1 = snd (run example_calls initial_registry) \<and>
   7 \<notin> set (issued (fst (run example_calls initial_registry))) \<and>
   nativeCleanup (snd (run example_calls initial_registry)) 7 = snd (run example_calls initial_registry) \<and>
   nativeCleanup (snd (run example_calls initial_registry)) 0 = snd (run example_calls initial_registry) \<and>
   nativeCleanup (nativeCleanup example_registry 1) 1 = nativeCleanup example_registry 1"
proof -
  have a: "g_contexts (snd (run example_calls initial_registry)) 1 = None" by code_simp
  have b: "7 \<notin> set (issued (fst (run example_calls initial_registry)))"
    by (simp add: example_issued)
  have c: "Suc (length example_calls) < 2 ^ 63" by (simp add: example_calls_def)
  show ?thesis
    using a b c
      cleanup_invalid_handle_is_noop
        [where handle = 1 and st = "snd (run example_calls initial_registry)" and n = 0
           and cs = "[] :: (nat, 32 word \<times> llama_token list, unit, int) call list"]
      cleanup_invalid_handle_is_noop
        [where handle = 7 and cs = example_calls and n = 0
           and st = "initial_registry :: (nat, 32 word \<times> llama_token list) registry"]
      cleanup_invalid_handle_is_noop
        [where handle = 0 and st = "snd (run example_calls initial_registry)" and n = 0
           and cs = "[] :: (nat, 32 word \<times> llama_token list, unit, int) call list"]
      cleanup_invalid_handle_is_noop
        [where handle = 1 and st = example_registry and n = 1
           and cs = "[] :: (nat, 32 word \<times> llama_token list, unit, int) call list"]
    by simp
qed

text \<open>
  Claim C9. The thread count of a load: a positive \<open>threads\<close> is taken as it is, for
  \<open>n_threads\<close> and for \<open>n_threads_batch\<close>; \<open>-1\<close> takes the hardware concurrency, narrowed
  to a signed 32-bit integer, which is the hardware concurrency itself when that is below
  \<open>2 ^ 31\<close>, or 4 when the hardware concurrency is zero; any other value that is not
  positive, 0 included, gives 4. The count is positive whenever \<open>threads\<close> is not \<open>-1\<close>,
  and for \<open>-1\<close> when the hardware concurrency is below \<open>2 ^ 31\<close>. A load that meets no
  failure returns the handle of a session whose context was made with these parameters, and
  the context of every session that a load adds to the registry was made with them.
\<close>

theorem thread_count_resolution:
  "(0 < threads \<longrightarrow>
      n_threads (load_context_params eng contextSize threads) = threads \<and>
      n_threads_batch (load_context_params eng contextSize threads) = threads) \<and>
   (threads = -1 \<and> 0 < hardware_concurrency eng \<longrightarrow>
      n_threads (load_context_params eng contextSize threads) = sint (hardware_concurrency eng) \<and>
      n_threads_batch (load_context_params eng contextSize threads) = sint (hardware_concurrency eng)) \<and>
   (threads = -1 \<and> 0 < hardware_concurrency eng \<and> uint (hardware_concurrency eng) < 2 ^ 31 \<longrightarrow>
      n_threads (load_context_params eng contextSize threads) = uint (hardware_concurrency eng) \<and>
      n_threads_batch (load_context_params eng contextSize threads) = uint (hardware_concurrency eng)) \<and>
   (threads = -1 \<and> hardware_concurrency eng = 0 \<longrightarrow>
      n_threads (load_context_params eng contextSize threads) = 4 \<and>
      n_threads_batch (load_context_params eng contextSize threads) = 4) \<and>
   (threads \<le> 0 \<and> threads \<noteq> -1 \<longrightarrow>
      n_threads (load_context_params eng contextSize threads) = 4 \<and>
      n_threads_batch (load_context_params eng contextSize threads) = 4) \<and>
   (threads \<noteq> -1 \<longrightarrow>
      0 < n_threads (load_context_params eng contextSize threads) \<and>
      0 < n_threads_batch (load_context_params eng contextSize threads)) \<and>
   (threads = -1 \<and> uint (hardware_concurrency eng) < 2 ^ 31 \<longrightarrow>
      0 < n_threads (load_context_params eng contextSize threads) \<and>
      0 < n_threads_batch (load_context_params eng contextSize threads)) \<and>
   (env = Some e \<and> modelPath \<noteq> None \<and> jstring_to_string e modelPath \<noteq> [] \<and>
    \<not> bad_alloc eng Path_string \<and> \<not> bad_alloc eng Session_object \<and>
    \<not> bad_alloc eng Tokens_reserve \<and> \<not> bad_alloc eng Registry_insert \<and>
    llama_model_load_from_file eng (jstring_to_string e modelPath) (load_model_params eng) = Some m \<and>
    llama_init_from_model eng m
      (load_context_params eng (if contextSize \<le> 0 then 2048 else contextSize) threads) = Some c \<longrightarrow>
      fst (nativeLoadModel eng env st modelPath contextSize threads) = g_next_handle st \<and>
      g_contexts (snd (nativeLoadModel eng env st modelPath contextSize threads)) (g_next_handle st) =
        Some \<lparr>model = Some m, context_ptr = Some c, tokens = [], rng = random_device eng\<rparr>) \<and>
   (\<forall>k s. g_contexts (snd (nativeLoadModel eng env st modelPath contextSize threads)) k = Some s \<and>
          g_contexts st k \<noteq> Some s \<longrightarrow>
          (\<exists>m'. model s = Some m' \<and>
               context_ptr s = llama_init_from_model eng m'
                 (load_context_params eng (if contextSize \<le> 0 then 2048 else contextSize) threads)))"
proof -
  let ?P = "load_context_params eng contextSize threads"
  note cases = load_params_threads[of threads eng contextSize]
  have narrow: "n_threads ?P = uint (hardware_concurrency eng) \<and>
                n_threads_batch ?P = uint (hardware_concurrency eng)"
    if "threads = -1 \<and> 0 < hardware_concurrency eng \<and> uint (hardware_concurrency eng) < 2 ^ 31"
  proof -
    from that have "sint (hardware_concurrency eng) = uint (hardware_concurrency eng)"
      by (simp add: sint_uint_32)
    with that cases show ?thesis by simp
  qed
  have pos: "0 < n_threads ?P \<and> 0 < n_threads_batch ?P" if "threads \<noteq> -1"
    using load_params_threads_positive[of threads eng contextSize] that by blast
  have pos_hw: "0 < n_threads ?P \<and> 0 < n_threads_batch ?P"
    if "threads = -1 \<and> uint (hardware_concurrency eng) < 2 ^ 31"
    using load_params_threads_positive[of threads eng contextSize] that by blast
  have ok: "fst (nativeLoadModel eng env st modelPath contextSize threads) = g_next_handle st \<and>
      g_contexts (snd (nativeLoadModel eng env st modelPath contextSize threads)) (g_next_handle st) =
        Some \<lparr>model = Some m, context_ptr = Some c, tokens = [], rng = random_device eng\<rparr>"
    if "env = Some e \<and> modelPath \<noteq> None \<and> jstring_to_string e modelPath \<noteq> [] \<and>
    \<not> bad_alloc eng Path_string \<and> \<not> bad_alloc eng Session_object \<and>
    \<not> bad_alloc eng Tokens_reserve \<and> \<not> bad_alloc eng Registry_insert \<and>
    llama_model_load_from_file eng (jstring_to_string e modelPath) (load_model_params eng) = Some m \<and>
    llama_init_from_model eng m
      (load_context_params eng (if contextSize \<le> 0 then 2048 else contextSize) threads) = Some c"
  proof -
    from that have h: "env = Some e" "modelPath \<noteq> None" "jstring_to_string e modelPath \<noteq> []"
      "\<not> bad_alloc eng Path_string" "\<not> bad_alloc eng Session_object"
      "\<not> bad_alloc eng Tokens_reserve" "\<not> bad_alloc eng Registry_insert"
      "llama_model_load_from_file eng (jstring_to_string e modelPath) (load_model_params eng) = Some m"
      "llama_init_from_model eng m
         (load_context_params eng (if contextSize \<le> 0 then 2048 else contextSize) threads) = Some c"
      by blast+
    show ?thesis by (rule load_success_registers[OF h])
  qed
  have added: "\<exists>m'. model s = Some m' \<and>
               context_ptr s = llama_init_from_model eng m'
                 (load_context_params eng (if contextSize \<le> 0 then 2048 else contextSize) threads)"
    if "g_contexts (snd (nativeLoadModel eng env st modelPath contextSize threads)) k = Some s \<and>
        g_contexts st k \<noteq> Some s" for k s
    using load_success_session[OF surjective_pairing conjunct1[OF that] conjunct2[OF that]] by blast
  show ?thesis
    using cases narrow pos pos_hw ok added by blast
qed

theorem thread_count_resolution_example:
  "n_threads (load_context_params (example_engine 8 8) 8 (-1)) = 8 \<and>
   n_threads_batch (load_context_params (example_engine 8 8) 8 (-1)) = 8 \<and>
   fst (nativeLoadModel (example_engine 8 8) (Some example_env) initial_registry
          (Some ''model.gguf'') 8 (-1)) = 1 \<and>
   g_contexts (snd (nativeLoadModel (example_engine 8 8) (Some example_env) initial_registry
                      (Some ''model.gguf'') 8 (-1))) 1 =
     Some \<lparr>model = Some 0, context_ptr = Some (8, []), tokens = [], rng = 42\<rparr> \<and>
   n_threads (load_context_params (example_engine 8 8) 8 3) = 3 \<and>
   n_threads_batch (load_context_params (example_engine 8 8) 8 3) = 3 \<and>
   n_threads (load_context_params (example_engine 8 8) 8 0) = 4 \<and>
   n_threads (load_context_params ((example_engine 8 8)\<lparr>hardware_concurrency := 0\<rparr>) 8 (-1)) = 4"
proof -
  have hw: "hardware_concurrency (example_engine 8 8) = 8"
    by (simp add: example_engine_def)
  have path: "jstring_to_string example_env (Some ''model.gguf'') = ''model.gguf''"
    by (simp add: jstring_to_string_def example_env_def)
  have loaded: "llama_model_load_from_file (example_engine 8 8) ''model.gguf''
                (load_model_params (example_engine 8 8)) = Some 0"
    by (simp add: example_engine_def)
  have init: "llama_init_from_model (example_engine 8 8) 0
                (load_context_params (example_engine 8 8) 8 (-1)) = Some (8, [])"
    by (simp add: example_engine_def load_context_params_def Let_def)
  have alloc: "\<not> bad_alloc (example_engine 8 8) site" for site
    by (simp add: example_engine_def)
  have rd: "random_device (example_engine 8 8) = 42"
    by (simp add: example_engine_def)
  have next_handle: "g_next_handle (initial_registry :: (nat, 32 word \<times> llama_token list) registry) = 1"
    by (simp add: initial_registry_def)
  have a: "n_threads (load_context_params (example_engine 8 8) 8 (-1)) = 8 \<and>
     n_threads_batch (load_context_params (example_engine 8 8) 8 (-1)) = 8 \<and>
     fst (nativeLoadModel (example_engine 8 8) (Some example_env) initial_registry
            (Some ''model.gguf'') 8 (-1)) = 1 \<and>
     g_contexts (snd (nativeLoadModel (example_engine 8 8) (Some example_env) initial_registry
                        (Some ''model.gguf'') 8 (-1))) 1 =
       Some \<lparr>model = Some 0, context_ptr = Some (8, []), tokens = [], rng = 42\<rparr>"
    using thread_count_resolution
      [where threads = "-1" and eng = "example_engine 8 8" and contextSize = 8
         and env = "Some example_env" and e = example_env and st = initial_registry
         and modelPath = "Some ''model.gguf''" and m = 0 and c = "(8, [])"]
    by (simp add: hw path loaded init alloc rd next_handle)
  have b: "n_threads (load_context_params (example_engine 8 8) 8 3) = 3 \<and>
     n_threads_batch (load_context_params (example_engine 8 8) 8 3) = 3"
    using thread_count_resolution
      [where threads = 3 and eng = "example_engine 8 8" and contextSize = 8
         and env = "Some example_env" and e = example_env and st = initial_registry
         and modelPath = "Some ''model.gguf''" and m = 0 and c = "(8, [])"]
    by simp
  have c: "n_threads (load_context_params (example_engine 8 8) 8 0) = 4"
    using thread_count_resolution
      [where threads = 0 and eng = "example_engine 8 8" and contextSize = 8
         and env = "Some example_env" and e = example_env and st = initial_registry
         and modelPath = "Some ''model.gguf''" and m = 0 and c = "(8, [])"]
    by simp
  have d: "n_threads (load_context_params ((example_engine 8 8)\<lparr>hardware_concurrency := 0\<rparr>) 8 (-1)) = 4"
    using thread_count_resolution
      [where threads = "-1" and eng = "(example_engine 8 8)\<lparr>hardware_concurrency := 0\<rparr>"
         and contextSize = 8
         and env = "Some example_env" and e = example_env and st = initial_registry
         and modelPath = "Some ''model.gguf''" and m = 0 and c = "(8, [])"]
    by simp
  show ?thesis using a b c d by simp
qed

lemma example_session: "g_contexts example_registry 1 =
    Some \<lparr>model = Some 0, context_ptr = Some (8, []), tokens = [], rng = 42\<rparr>"
  by code_simp

subsection \<open>The generation loop\<close>

lemma generate_step_break:
  assumes "generate_step eng ctx vocab i gv = Break gv'"
  shows "gv' = gv \<or>
     (\<exists>t. \<not> llama_vocab_is_eog eng vocab t \<and> gen_tokens gv' = gen_tokens gv @ [t] \<and>
          gen_result gv' = gen_result gv @ piece_text eng vocab t)"
  using assms
  by (auto simp: generate_step_def Let_def split: option.splits if_splits)

lemma generate_step_throw:
  assumes "generate_step eng ctx vocab i gv = Throw gv'"
  shows "gen_tokens gv' = gen_tokens gv \<and> gen_context gv' = gen_context gv"
  using assms
  by (auto simp: generate_step_def Let_def split: option.splits if_splits)

lemma generate_step_context:
  assumes "generate_step eng ctx vocab i gv = Break gv' \<or> generate_step eng ctx vocab i gv = Continue gv'"
  shows "gen_context gv' = gen_context gv \<or>
         (\<exists>batch. gen_context gv' = snd (llama_decode eng (gen_context gv) batch))"
  using assms
  by (auto simp: generate_step_def Let_def split: option.splits if_splits)

lemma generate_loop_tokens:
  "\<exists>new. gen_tokens (exit_vars (generate_loop eng ctx vocab max_gen_tokens i gv)) = gen_tokens gv @ new \<and>
     int (length new) \<le> max 0 (max_gen_tokens - i) \<and>
     (\<forall>t\<in>set new. \<not> llama_vocab_is_eog eng vocab t) \<and>
     (\<forall>gv'. generate_loop eng ctx vocab max_gen_tokens i gv = Finished gv' \<longrightarrow>
        gen_result gv' = gen_result gv @ concat (map (piece_text eng vocab) new))"
proof (induction eng ctx vocab max_gen_tokens i gv rule: generate_loop.induct)
  case (1 eng ctx vocab max_gen_tokens i gv)
  show ?case
  proof (cases "i < max_gen_tokens")
    case False
    then have "generate_loop eng ctx vocab max_gen_tokens i gv = Finished gv"
      by (subst generate_loop.simps) simp
    then show ?thesis by simp
  next
    case True
    show ?thesis
    proof (cases "generate_step eng ctx vocab i gv")
      case (Break gv')
      then have l: "generate_loop eng ctx vocab max_gen_tokens i gv = Finished gv'"
        using True by (subst generate_loop.simps) simp
      from generate_step_break[OF Break] show ?thesis
      proof
        assume "gv' = gv"
        then show ?thesis using l by simp
      next
        assume "\<exists>t. \<not> llama_vocab_is_eog eng vocab t \<and> gen_tokens gv' = gen_tokens gv @ [t] \<and>
          gen_result gv' = gen_result gv @ piece_text eng vocab t"
        then obtain t where t: "\<not> llama_vocab_is_eog eng vocab t"
          "gen_tokens gv' = gen_tokens gv @ [t]"
          "gen_result gv' = gen_result gv @ piece_text eng vocab t" by blast
        have "gen_tokens (exit_vars (generate_loop eng ctx vocab max_gen_tokens i gv)) = gen_tokens gv @ [t] \<and>
           int (length [t]) \<le> max 0 (max_gen_tokens - i) \<and>
           (\<forall>t\<in>set [t]. \<not> llama_vocab_is_eog eng vocab t) \<and>
           (\<forall>gv'. generate_loop eng ctx vocab max_gen_tokens i gv = Finished gv' \<longrightarrow>
              gen_result gv' = gen_result gv @ concat (map (piece_text eng vocab) [t]))"
          using l t True by simp
        then show ?thesis by (rule exI)
      qed
    next
      case (Throw gv')
      then have l: "generate_loop eng ctx vocab max_gen_tokens i gv = Thrown gv'"
        using True by (subst generate_loop.simps) simp
      from generate_step_throw[OF Throw] show ?thesis using l by simp
    next
      case (Continue gv')
      then have l: "generate_loop eng ctx vocab max_gen_tokens i gv =
                    generate_loop eng ctx vocab max_gen_tokens (i + 1) gv'"
        using True by (subst generate_loop.simps) simp
      from generate_step_continue[OF Continue]
      obtain t where t: "\<not> llama_vocab_is_eog eng vocab t"
          "gen_tokens gv' = gen_tokens gv @ [t]"
          "gen_result gv' = gen_result gv @ piece_text eng vocab t" by blast
      from "1.IH"[OF True Continue] obtain new where
        n: "gen_tokens (exit_vars (generate_loop eng ctx vocab max_gen_tokens (i + 1) gv')) =
              gen_tokens gv' @ new"
           "int (length new) \<le> max 0 (max_gen_tokens - (i + 1))"
           "\<forall>t\<in>set new. \<not> llama_vocab_is_eog eng vocab t"
           "\<forall>gv''. generate_loop eng ctx vocab max_gen_tokens (i + 1) gv' = Finished gv'' \<longrightarrow>
              gen_result gv'' = gen_result gv' @ concat (map (piece_text eng vocab) new)"
        by blast
      have "gen_tokens (exit_vars (generate_loop eng ctx vocab max_gen_tokens i gv)) = gen_tokens gv @ (t # new) \<and>
           int (length (t # new)) \<le> max 0 (max_gen_tokens - i) \<and>
           (\<forall>t\<in>set (t # new). \<not> llama_vocab_is_eog eng vocab t) \<and>
           (\<forall>gv'. generate_loop eng ctx vocab max_gen_tokens i gv = Finished gv' \<longrightarrow>
              gen_result gv' = gen_result gv @ concat (map (piece_text eng vocab) (t # new)))"
      proof (intro conjI allI impI)
        show "gen_tokens (exit_vars (generate_loop eng ctx vocab max_gen_tokens i gv)) =
              gen_tokens gv @ t # new"
          unfolding l using t(2) n(1) by simp
        show "int (length (t # new)) \<le> max 0 (max_gen_tokens - i)"
          using n(2) True by simp
        show "\<forall>t\<in>set (t # new). \<not> llama_vocab_is_eog eng vocab t"
          using t(1) n(3) by simp
        fix gv''
        assume "generate_loop eng ctx vocab max_gen_tokens i gv = Finished gv''"
        then have "generate_loop eng ctx vocab max_gen_tokens (i + 1) gv' = Finished gv''"
          unfolding l .
        from n(4)[rule_format, OF this] t(3)
        show "gen_result gv'' = gen_result gv @ concat (map (piece_text eng vocab) (t # new))"
          by simp
      qed
      then show ?thesis by (rule exI)
    qed
  qed
qed

lemma generate_loop_context:
  assumes "\<And>c batch. f (snd (llama_decode eng c batch)) = f c"
  shows "f (gen_context (exit_vars (generate_loop eng ctx vocab max_gen_tokens i gv))) = f (gen_context gv)"
  using assms
proof (induction eng ctx vocab max_gen_tokens i gv rule: generate_loop.induct)
  case (1 eng ctx vocab max_gen_tokens i gv)
  note dec = "1.prems"
  show ?case
  proof (cases "i < max_gen_tokens")
    case False
    then have "generate_loop eng ctx vocab max_gen_tokens i gv = Finished gv"
      by (subst generate_loop.simps) simp
    then show ?thesis by simp
  next
    case True
    show ?thesis
    proof (cases "generate_step eng ctx vocab i gv")
      case (Break gv')
      then have l: "generate_loop eng ctx vocab max_gen_tokens i gv = Finished gv'"
        using True by (subst generate_loop.simps) simp
      from generate_step_context[of eng ctx vocab i gv gv'] Break
      have "f (gen_context gv') = f (gen_context gv)" using dec by auto
      then show ?thesis using l by simp
    next
      case (Throw gv')
      then have l: "generate_loop eng ctx vocab max_gen_tokens i gv = Thrown gv'"
        using True by (subst generate_loop.simps) simp
      from generate_step_throw[OF Throw] show ?thesis using l by simp
    next
      case (Continue gv')
      then have l: "generate_loop eng ctx vocab max_gen_tokens i gv =
                    generate_loop eng ctx vocab max_gen_tokens (i + 1) gv'"
        using True by (subst generate_loop.simps) simp
      from generate_step_context[of eng ctx vocab i gv gv'] Continue
      have "f (gen_context gv') = f (gen_context gv)" using dec by auto
      moreover have "f (gen_context (exit_vars (generate_loop eng ctx vocab max_gen_tokens (i + 1) gv'))) =
                     f (gen_context gv')"
        by (rule "1.IH"[OF True Continue dec])
      ultimately show ?thesis unfolding l by simp
    qed
  qed
qed

lemma wrap_int_sub:
  fixes n_ctx :: "32 word"
  assumes "0 \<le> n" "n \<le> uint n_ctx"
  shows "wrap_int (sint n_ctx - n) \<le> uint n_ctx - n"
proof -
  have "(word_of_int (sint n_ctx - n) :: 32 word) = n_ctx - word_of_int n" by simp
  moreover have "sint (n_ctx - word_of_int n) \<le> uint (n_ctx - word_of_int n)"
  proof -
    have "(0::int) \<le> uint (n_ctx - word_of_int n)" by simp
    then have "- (2 ^ 31) \<le> uint (n_ctx - word_of_int n)" by (rule order_trans[rotated]) simp
    then show ?thesis by (simp add: sint_uint signed_take_bit_int_less_eq_self_iff)
  qed
  moreover have "uint (n_ctx - word_of_int n) = uint n_ctx - n"
  proof -
    have "uint n_ctx < 2 ^ 32" using uint_lt2p[of n_ctx] by simp
    with assms have "n mod 4294967296 = n" by simp
    with assms show ?thesis by (simp add: uint_sub_if' uint_word_of_int)
  qed
  ultimately show ?thesis by (simp add: wrap_int_def)
qed

lemma generate_loop_states_tokens:
  "\<forall>s\<in>set (generate_loop_states eng ctx vocab max_gen_tokens i gv).
     length (gen_tokens gv) \<le> length (gen_tokens s) \<and>
     length (gen_tokens s) \<le>
       length (gen_tokens (exit_vars (generate_loop eng ctx vocab max_gen_tokens i gv)))"
proof (induction eng ctx vocab max_gen_tokens i gv rule: generate_loop_states.induct)
  case (1 eng ctx vocab max_gen_tokens i gv)
  from generate_loop_tokens[of eng ctx vocab max_gen_tokens i gv]
  have grow: "length (gen_tokens gv) \<le>
              length (gen_tokens (exit_vars (generate_loop eng ctx vocab max_gen_tokens i gv)))"
    by auto
  show ?case
  proof (cases "i < max_gen_tokens")
    case False
    then have "generate_loop_states eng ctx vocab max_gen_tokens i gv = [gv]"
      by (subst generate_loop_states.simps) simp
    then show ?thesis using grow by simp
  next
    case True
    show ?thesis
    proof (cases "generate_step eng ctx vocab i gv")
      case (Break gv')
      then have l: "generate_loop eng ctx vocab max_gen_tokens i gv = Finished gv'"
        using True by (subst generate_loop.simps) simp
      have s: "generate_loop_states eng ctx vocab max_gen_tokens i gv = [gv, gv']"
        using True Break by (subst generate_loop_states.simps) simp
      show ?thesis unfolding s using grow l by simp
    next
      case (Throw gv')
      then have l: "generate_loop eng ctx vocab max_gen_tokens i gv = Thrown gv'"
        using True by (subst generate_loop.simps) simp
      have s: "generate_loop_states eng ctx vocab max_gen_tokens i gv = [gv, gv']"
        using True Throw by (subst generate_loop_states.simps) simp
      show ?thesis unfolding s using grow l by simp
    next
      case (Continue gv')
      then have l: "generate_loop eng ctx vocab max_gen_tokens i gv =
                    generate_loop eng ctx vocab max_gen_tokens (i + 1) gv'"
        using True by (subst generate_loop.simps) simp
      have s: "generate_loop_states eng ctx vocab max_gen_tokens i gv =
               gv # generate_loop_states eng ctx vocab max_gen_tokens (i + 1) gv'"
        using True Continue by (subst generate_loop_states.simps) simp
      from generate_step_continue[OF Continue]
      have g: "length (gen_tokens gv) \<le> length (gen_tokens gv')" by auto
      have ih: "\<forall>s\<in>set (generate_loop_states eng ctx vocab max_gen_tokens (i + 1) gv').
         length (gen_tokens gv') \<le> length (gen_tokens s) \<and>
         length (gen_tokens s) \<le>
           length (gen_tokens (exit_vars (generate_loop eng ctx vocab max_gen_tokens (i + 1) gv')))"
        by (rule "1.IH"[OF True Continue])
      show ?thesis unfolding s l
      proof
        fix x assume "x \<in> set (gv # generate_loop_states eng ctx vocab max_gen_tokens (i + 1) gv')"
        then consider "x = gv" | "x \<in> set (generate_loop_states eng ctx vocab max_gen_tokens (i + 1) gv')"
          by auto
        then show "length (gen_tokens gv) \<le> length (gen_tokens x) \<and>
           length (gen_tokens x) \<le>
             length (gen_tokens (exit_vars (generate_loop eng ctx vocab max_gen_tokens (i + 1) gv')))"
        proof cases
          case 1
          then show ?thesis using grow l by simp
        next
          case 2
          with ih g show ?thesis by force
        qed
      qed
    qed
  qed
qed

lemma generate_from_tokens_history:
  assumes fixed: "\<And>c batch. llama_n_ctx eng (snd (llama_decode eng c batch)) = llama_n_ctx eng c"
    and n: "0 \<le> n_tokens" "n_tokens \<le> uint (llama_n_ctx eng c)"
  shows "\<exists>new. tokens (snd (generate_from_tokens eng env ctx vocab c maxTokens n_tokens)) = tokens ctx @ new \<and>
           int (length new) \<le> max 0 (min maxTokens (uint (llama_n_ctx eng c) - n_tokens))"
proof -
  let ?batch = "prompt_batch (tokens ctx) n_tokens"
  let ?c1 = "snd (llama_decode eng c ?batch)"
  let ?ctx1 = "ctx\<lparr>context_ptr := Some ?c1\<rparr>"
  show ?thesis
  proof (cases "fst (llama_decode eng c ?batch) \<noteq> 0")
    case True
    then have "tokens (snd (generate_from_tokens eng env ctx vocab c maxTokens n_tokens)) = tokens ctx"
      by (simp add: generate_from_tokens_def Let_def)
    then show ?thesis by simp
  next
    case False
    let ?mg = "min maxTokens (wrap_int (sint (llama_n_ctx eng ?c1) - n_tokens))"
    let ?gv0 = "\<lparr>gen_result = [], gen_batch = ?batch, gen_tokens = tokens ctx, gen_context = ?c1\<rparr>"
    let ?out = "generate_loop eng ?ctx1 vocab ?mg 0 ?gv0"
    have t: "tokens (snd (generate_from_tokens eng env ctx vocab c maxTokens n_tokens)) =
             gen_tokens (exit_vars ?out)"
      using False by (cases ?out) (simp_all add: generate_from_tokens_def Let_def session_of_def)
    from generate_loop_tokens[of eng ?ctx1 vocab ?mg 0 ?gv0]
    obtain new where new: "gen_tokens (exit_vars ?out) = tokens ctx @ new"
      "int (length new) \<le> max 0 (?mg - 0)" by auto
    have "wrap_int (sint (llama_n_ctx eng ?c1) - n_tokens) \<le> uint (llama_n_ctx eng c) - n_tokens"
      using wrap_int_sub[OF n] fixed by simp
    then have "max 0 (?mg - 0) \<le> max 0 (min maxTokens (uint (llama_n_ctx eng c) - n_tokens))"
      by simp
    with new t show ?thesis by (intro exI[of _ new]) simp
  qed
qed

lemma generate_valid_session:
  assumes "env = Some e" "prompt = Some p" "handle \<noteq> 0" "get_context st handle = Some ctx"
    "model ctx = Some m" "context_ptr ctx = Some c"
  shows "nativeGenerateText eng env st handle prompt maxTokens temperature topP topK =
           (fst (generate_try eng e ctx m c prompt maxTokens),
            st\<lparr>g_contexts := (g_contexts st)(handle \<mapsto> snd (generate_try eng e ctx m c prompt maxTokens))\<rparr>)"
  using assms by (simp add: nativeGenerateText_def Let_def)

lemma uint_half: "uint ((w :: 32 word) div 2) = uint w div 2"
  by (simp add: uint_div)

lemma resize_length: "length (resize xs n) = n"
  by (simp add: resize_def)

lemma generate_try_history:
  assumes tok: "tokenize_within_capacity eng" and fixed: "n_ctx_fixed eng"
  shows "fst (llama_tokenize eng (llama_model_get_vocab eng m) (jstring_to_string e prompt)
                (int (length (jstring_to_string e prompt))) (uint (llama_n_ctx eng c div 2)) True False)
           \<le> uint (llama_n_ctx eng c) div 2"
    and "tokens (snd (generate_try eng e ctx m c prompt maxTokens)) = tokens ctx \<or>
         int (length (tokens (snd (generate_try eng e ctx m c prompt maxTokens)))) \<le> uint (llama_n_ctx eng c)"
    and "\<not> bad_alloc eng Prompt_string \<and> jstring_to_string e prompt \<noteq> [] \<and>
         \<not> bad_alloc eng Tokens_resize \<and>
         0 \<le> fst (llama_tokenize eng (llama_model_get_vocab eng m) (jstring_to_string e prompt)
                (int (length (jstring_to_string e prompt))) (uint (llama_n_ctx eng c div 2)) True False)
         \<longrightarrow>
         (\<exists>old new. tokens (snd (generate_try eng e ctx m c prompt maxTokens)) = old @ new \<and>
            int (length old) = fst (llama_tokenize eng (llama_model_get_vocab eng m) (jstring_to_string e prompt)
                (int (length (jstring_to_string e prompt))) (uint (llama_n_ctx eng c div 2)) True False) \<and>
            int (length new) \<le> min (if maxTokens \<le> 0 then 256 else maxTokens)
               (uint (llama_n_ctx eng c) -
                fst (llama_tokenize eng (llama_model_get_vocab eng m) (jstring_to_string e prompt)
                (int (length (jstring_to_string e prompt))) (uint (llama_n_ctx eng c div 2)) True False)) \<and>
            int (length (old @ new)) \<le> uint (llama_n_ctx eng c))"
proof -
  let ?input = "jstring_to_string e prompt"
  let ?vocab = "llama_model_get_vocab eng m"
  let ?c0 = "llama_memory_clear eng c"
  let ?nctx = "llama_n_ctx eng c"
  let ?n = "fst (llama_tokenize eng ?vocab ?input (int (length ?input)) (uint (?nctx div 2)) True False)"
  let ?w = "snd (llama_tokenize eng ?vocab ?input (int (length ?input)) (uint (?nctx div 2)) True False)"
  let ?mt = "if maxTokens \<le> 0 then 256 else maxTokens"
  let ?r = "generate_try eng e ctx m c prompt maxTokens"
  have c0: "llama_n_ctx eng ?c0 = ?nctx" using fixed by (simp add: n_ctx_fixed_def)
  have dec: "\<And>c batch. llama_n_ctx eng (snd (llama_decode eng c batch)) = llama_n_ctx eng c"
    using fixed by (simp add: n_ctx_fixed_def)
  have half: "uint (?nctx div 2) = uint ?nctx div 2" by (rule uint_half)
  have h0: "0 \<le> uint (?nctx div 2)" by simp
  show nle: "?n \<le> uint ?nctx div 2"
    using tok h0 unfolding tokenize_within_capacity_def half by blast
  have nctx0: "0 \<le> uint ?nctx" by simp
  have nle': "?n \<le> uint ?nctx" using nle nctx0 by linarith
  let ?buf = "tokenize_into (resize [] (nat (uint (?nctx div 2)))) ?w"
  let ?ctx2 = "ctx\<lparr>context_ptr := Some ?c0, tokens := resize ?buf (nat ?n)\<rparr>"
  have loop_path: "?r = generate_from_tokens eng e ?ctx2 ?vocab ?c0 ?mt ?n"
    if "\<not> bad_alloc eng Prompt_string" "?input \<noteq> []" "\<not> bad_alloc eng Tokens_resize" "0 \<le> ?n"
    using that by (simp add: generate_try_def Let_def c0)
  have loop_bound: "\<exists>new. tokens (snd ?r) = resize ?buf (nat ?n) @ new \<and>
            int (length new) \<le> min ?mt (uint ?nctx - ?n)"
    if "\<not> bad_alloc eng Prompt_string" "?input \<noteq> []" "\<not> bad_alloc eng Tokens_resize" "0 \<le> ?n"
  proof -
    have n0: "?n \<le> uint (llama_n_ctx eng ?c0)" using nle' c0 by simp
    from generate_from_tokens_history[of eng ?n ?c0 e ?ctx2 ?vocab ?mt, OF dec that(4) n0]
    obtain new where new: "tokens (snd (generate_from_tokens eng e ?ctx2 ?vocab ?c0 ?mt ?n)) =
        tokens ?ctx2 @ new"
      "int (length new) \<le> max 0 (min ?mt (uint (llama_n_ctx eng ?c0) - ?n))"
      by blast
    have "0 \<le> min ?mt (uint ?nctx - ?n)" using nle' by simp
    then have "max 0 (min ?mt (uint ?nctx - ?n)) = min ?mt (uint ?nctx - ?n)" by simp
    with new c0 loop_path[OF that] show ?thesis by (intro exI[of _ new]) simp
  qed
  show "\<not> bad_alloc eng Prompt_string \<and> ?input \<noteq> [] \<and> \<not> bad_alloc eng Tokens_resize \<and> 0 \<le> ?n
         \<longrightarrow>
         (\<exists>old new. tokens (snd ?r) = old @ new \<and> int (length old) = ?n \<and>
            int (length new) \<le> min ?mt (uint ?nctx - ?n) \<and>
            int (length (old @ new)) \<le> uint ?nctx)"
  proof
    assume a: "\<not> bad_alloc eng Prompt_string \<and> ?input \<noteq> [] \<and> \<not> bad_alloc eng Tokens_resize \<and> 0 \<le> ?n"
    then obtain new where new: "tokens (snd ?r) = resize ?buf (nat ?n) @ new"
      "int (length new) \<le> min ?mt (uint ?nctx - ?n)"
      using loop_bound by blast
    have lo: "int (length (resize ?buf (nat ?n))) = ?n" using a by (simp add: resize_length)
    have "int (length (resize ?buf (nat ?n) @ new)) \<le> uint ?nctx"
      using lo new(2) by simp
    with new lo show "\<exists>old new. tokens (snd ?r) = old @ new \<and> int (length old) = ?n \<and>
            int (length new) \<le> min ?mt (uint ?nctx - ?n) \<and>
            int (length (old @ new)) \<le> uint ?nctx"
      by blast
  qed
  then have loop_case: "int (length (tokens (snd ?r))) \<le> uint ?nctx"
    if "\<not> bad_alloc eng Prompt_string" "?input \<noteq> []" "\<not> bad_alloc eng Tokens_resize" "0 \<le> ?n"
    using that by auto
  show "tokens (snd ?r) = tokens ctx \<or> int (length (tokens (snd ?r))) \<le> uint ?nctx"
  proof (cases "bad_alloc eng Prompt_string \<or> ?input = []")
    case True
    then have "tokens (snd ?r) = tokens ctx" by (auto simp: generate_try_def Let_def)
    then show ?thesis by simp
  next
    case False
    note f1 = False
    show ?thesis
    proof (cases "bad_alloc eng Tokens_resize")
      case True
      then have "tokens (snd ?r) = []" using f1 by (simp add: generate_try_def Let_def)
      then show ?thesis using nctx0 by simp
    next
      case False
      note f2 = False
      show ?thesis
      proof (cases "?n < 0")
        case True
        then have "tokens (snd ?r) = ?buf" using f1 f2 by (simp add: generate_try_def Let_def c0)
        moreover have "length ?buf = nat (uint (?nctx div 2))"
          by (simp add: tokenize_into_def resize_length)
        ultimately have "int (length (tokens (snd ?r))) = uint ?nctx div 2"
          using half by simp
        moreover have "uint ?nctx div 2 \<le> uint ?nctx" using nctx0 by linarith
        ultimately show ?thesis by simp
      next
        case False
        then show ?thesis using loop_case f1 f2 by simp
      qed
    qed
  qed
qed

lemma example_tokenize_ok: "tokenize_within_capacity (example_engine cap avail)"
  by (simp add: tokenize_within_capacity_def example_engine_def)

lemma example_n_ctx_fixed: "n_ctx_fixed (example_engine cap avail)"
  by (simp add: n_ctx_fixed_def example_engine_def)

lemma example_clear_resets: "memory_clear_resets (example_engine cap avail)"
  by (simp add: memory_clear_resets_def example_engine_def)

lemma example_generate_a:
  "nativeGenerateText (example_engine 8 8) (Some example_env) example_registry 1 (Some ''a'') 0 0 0 0 =
     (Some ''b'',
      example_registry\<lparr>g_contexts := (g_contexts example_registry)
        (1 \<mapsto> \<lparr>model = Some 0, context_ptr = Some (8, [0, 1, 2]), tokens = [0, 1, 2], rng = 42\<rparr>)\<rparr>)"
  by (simp add: nativeGenerateText_def get_context_def example_session generate_try_def
      generate_from_tokens_def example_engine_def example_env_def
      jstring_to_string_def string_to_jstring_def Let_def resize_def tokenize_into_def prompt_batch_def wrap_int_def
      generate_loop.simps generate_step_def sample_token_greedy_def session_of_def greedy_scan.simps
      next_batch_def piece_text_def)

text \<open>
  Claim C4. On a valid session, with a tokenizer that keeps to the capacity it is given and
  a context length that decoding and clearing do not change: the prompt has at most
  \<open>n_ctx div 2\<close> tokens; when the call gets past tokenization, the history it leaves is the
  prompt followed by the generated tokens, of which there are at most
  \<open>min maxTokens (n_ctx - n_prompt)\<close>, \<open>maxTokens\<close> being 256 when the argument is not
  positive; and the history is never longer than \<open>n_ctx\<close>: at the end of the call (where an
  early error return leaves it as it was before the call), and at every state of the loop,
  since the history of a loop state is never longer than the history at the exit of the loop.
\<close>

theorem history_within_context_length:
  fixes eng :: "('m, 'c, 'v, 's::linorder) engine"
  assumes "tokenize_within_capacity eng" and "n_ctx_fixed eng"
    and "env = Some e" and "prompt = Some p" and "handle \<noteq> 0"
    and "get_context st handle = Some ctx" and "model ctx = Some m" and "context_ptr ctx = Some c"
  shows
  "(\<exists>ctx'. g_contexts (snd (nativeGenerateText eng env st handle prompt maxTokens temperature topP topK))
            handle = Some ctx' \<and>
      (let n_ctx = uint (llama_n_ctx eng c);
           input = jstring_to_string e prompt;
           n_prompt = fst (llama_tokenize eng (llama_model_get_vocab eng m) input (int (length input))
                             (uint (llama_n_ctx eng c div 2)) True False);
           limit = min (if maxTokens \<le> 0 then 256 else maxTokens) (n_ctx - n_prompt)
       in n_prompt \<le> n_ctx div 2 \<and>
          (tokens ctx' = tokens ctx \<or> int (length (tokens ctx')) \<le> n_ctx) \<and>
          (\<not> bad_alloc eng Prompt_string \<and> input \<noteq> [] \<and> \<not> bad_alloc eng Tokens_resize \<and>
           0 \<le> n_prompt \<longrightarrow>
             (\<exists>old new. tokens ctx' = old @ new \<and> int (length old) = n_prompt \<and>
                 int (length new) \<le> limit \<and> int (length (old @ new)) \<le> n_ctx)))) \<and>
   (\<forall>s\<in>set (generate_loop_states eng loop_ctx vocab max_gen_tokens i gv).
      length (gen_tokens gv) \<le> length (gen_tokens s) \<and>
      length (gen_tokens s) \<le>
        length (gen_tokens (exit_vars (generate_loop eng loop_ctx vocab max_gen_tokens i gv))))"
proof (intro conjI)
  let ?r = "generate_try eng e ctx m c prompt maxTokens"
  have link: "g_contexts (snd (nativeGenerateText eng env st handle prompt maxTokens temperature topP topK))
          handle = Some (snd ?r)"
    using generate_valid_session[OF assms(3-8), where eng = eng and maxTokens = maxTokens
        and temperature = temperature and topP = topP and topK = topK] by simp
  show "\<exists>ctx'. g_contexts (snd (nativeGenerateText eng env st handle prompt maxTokens temperature topP topK))
            handle = Some ctx' \<and>
      (let n_ctx = uint (llama_n_ctx eng c);
           input = jstring_to_string e prompt;
           n_prompt = fst (llama_tokenize eng (llama_model_get_vocab eng m) input (int (length input))
                             (uint (llama_n_ctx eng c div 2)) True False);
           limit = min (if maxTokens \<le> 0 then 256 else maxTokens) (n_ctx - n_prompt)
       in n_prompt \<le> n_ctx div 2 \<and>
          (tokens ctx' = tokens ctx \<or> int (length (tokens ctx')) \<le> n_ctx) \<and>
          (\<not> bad_alloc eng Prompt_string \<and> input \<noteq> [] \<and> \<not> bad_alloc eng Tokens_resize \<and>
           0 \<le> n_prompt \<longrightarrow>
             (\<exists>old new. tokens ctx' = old @ new \<and> int (length old) = n_prompt \<and>
                 int (length new) \<le> limit \<and> int (length (old @ new)) \<le> n_ctx)))"
    unfolding Let_def
    apply (rule exI[of _ "snd ?r"])
    apply (intro conjI)
       apply (rule link)
      apply (rule generate_try_history(1)[OF assms(1,2)])
     apply (rule generate_try_history(2)[OF assms(1,2)])
    apply (rule generate_try_history(3)[OF assms(1,2)])
    done
next
  show "\<forall>s\<in>set (generate_loop_states eng loop_ctx vocab max_gen_tokens i gv).
      length (gen_tokens gv) \<le> length (gen_tokens s) \<and>
      length (gen_tokens s) \<le>
        length (gen_tokens (exit_vars (generate_loop eng loop_ctx vocab max_gen_tokens i gv)))"
    by (rule generate_loop_states_tokens)
qed

theorem history_within_context_length_example:
  "\<exists>ctx'. g_contexts (snd (nativeGenerateText (example_engine 8 8) (Some example_env) example_registry 1
                            (Some ''a'') 0 0 0 0)) 1 = Some ctx' \<and>
          tokens ctx' = [0, 1, 2] \<and> int (length (tokens ctx')) \<le> 8"
proof -
  have v: "get_context example_registry 1 =
           Some \<lparr>model = Some 0, context_ptr = Some (8, []), tokens = [], rng = 42\<rparr>"
    by (simp add: get_context_def example_session)
  from history_within_context_length
         [OF _ _ refl refl _ v, where m = 0 and c = "(8, [])"
            and eng = "example_engine 8 8" and maxTokens = 0 and temperature = 0 and topP = 0
            and topK = 0 and vocab = "()" and max_gen_tokens = 0 and i = 0
            and loop_ctx = "\<lparr>model = Some 0, context_ptr = Some (8, [0]), tokens = [0], rng = 42\<rparr>"
            and gv = "\<lparr>gen_result = [], gen_batch = prompt_batch [0] 1, gen_tokens = [0],
                       gen_context = (8, [0])\<rparr>"]
  show ?thesis
    by (simp add: example_generate_a example_tokenize_ok example_n_ctx_fixed)
qed

lemma generate_step_eog:
  assumes "llama_get_logits_ith eng (gen_context gv) (batch_n_tokens (gen_batch gv) - 1) = Some lg"
    and "llama_vocab_is_eog eng vocab (sample_token_greedy eng (Some (session_of ctx gv)) (Some lg))"
  shows "generate_step eng ctx vocab i gv = Break gv"
  using assms by (simp add: generate_step_def Let_def)

lemma generate_step_no_logits:
  assumes "llama_get_logits_ith eng (gen_context gv) (batch_n_tokens (gen_batch gv) - 1) = None"
  shows "generate_step eng ctx vocab i gv = Break gv"
  using assms by (simp add: generate_step_def)

lemma generate_loop_break:
  assumes "i < max_gen_tokens" and "generate_step eng ctx vocab i gv = Break gv'"
  shows "generate_loop eng ctx vocab max_gen_tokens i gv = Finished gv'"
  using assms by (subst generate_loop.simps) simp

lemma generate_loop_continue:
  assumes "i < max_gen_tokens" and "generate_step eng ctx vocab i gv = Continue gv'"
  shows "generate_loop eng ctx vocab max_gen_tokens i gv =
         generate_loop eng ctx vocab max_gen_tokens (i + 1) gv'"
  using assms by (subst generate_loop.simps) simp

text \<open>An iteration that gets as far as the decode of the new token.\<close>

lemma generate_step_decode:
  assumes "llama_get_logits_ith eng (gen_context gv) (batch_n_tokens (gen_batch gv) - 1) = Some lg"
    and "t = sample_token_greedy eng (Some (session_of ctx gv)) (Some lg)"
    and "\<not> llama_vocab_is_eog eng vocab t"
    and "\<not> (0 < fst (llama_token_to_piece eng vocab t 256 0 False) \<and> bad_alloc eng (Result_append i))"
    and "\<not> bad_alloc eng (Tokens_push_back i)"
    and "batch = next_batch (gen_batch gv) t (length (gen_tokens gv))"
  shows "generate_step eng ctx vocab i gv =
     (if fst (llama_decode eng (gen_context gv) batch) \<noteq> 0
      then Break \<lparr>gen_result = gen_result gv @ piece_text eng vocab t, gen_batch = batch,
                  gen_tokens = gen_tokens gv @ [t],
                  gen_context = snd (llama_decode eng (gen_context gv) batch)\<rparr>
      else Continue \<lparr>gen_result = gen_result gv @ piece_text eng vocab t, gen_batch = batch,
                  gen_tokens = gen_tokens gv @ [t],
                  gen_context = snd (llama_decode eng (gen_context gv) batch)\<rparr>)"
  using assms by (simp add: generate_step_def Let_def)

lemma piece_text_silent:
  "fst (llama_token_to_piece eng vocab t 256 0 False) \<le> 0 \<Longrightarrow> piece_text eng vocab t = []"
  by (simp add: piece_text_def Let_def)

lemma generate_from_tokens_text:
  "fst (generate_from_tokens eng env ctx vocab c maxTokens n_tokens) =
     string_to_jstring (Some env) ''Error: Failed to decode prompt'' \<or>
   fst (generate_from_tokens eng env ctx vocab c maxTokens n_tokens) =
     string_to_jstring (Some env) ''Error: Exception during text generation'' \<or>
   (\<exists>new. tokens (snd (generate_from_tokens eng env ctx vocab c maxTokens n_tokens)) = tokens ctx @ new \<and>
      (\<forall>t\<in>set new. \<not> llama_vocab_is_eog eng vocab t) \<and>
      fst (generate_from_tokens eng env ctx vocab c maxTokens n_tokens) =
        string_to_jstring (Some env) (concat (map (piece_text eng vocab) new)))"
proof -
  let ?batch = "prompt_batch (tokens ctx) n_tokens"
  let ?c1 = "snd (llama_decode eng c ?batch)"
  let ?ctx1 = "ctx\<lparr>context_ptr := Some ?c1\<rparr>"
  let ?mg = "min maxTokens (wrap_int (sint (llama_n_ctx eng ?c1) - n_tokens))"
  let ?gv0 = "\<lparr>gen_result = [], gen_batch = ?batch, gen_tokens = tokens ctx, gen_context = ?c1\<rparr>"
  let ?out = "generate_loop eng ?ctx1 vocab ?mg 0 ?gv0"
  show ?thesis
  proof (cases "fst (llama_decode eng c ?batch) \<noteq> 0")
    case True
    then show ?thesis by (simp add: generate_from_tokens_def Let_def)
  next
    case False
    from generate_loop_tokens[of eng ?ctx1 vocab ?mg 0 ?gv0]
    obtain new where new: "gen_tokens (exit_vars ?out) = tokens ctx @ new"
      "\<forall>t\<in>set new. \<not> llama_vocab_is_eog eng vocab t"
      "\<forall>gv'. ?out = Finished gv' \<longrightarrow> gen_result gv' = concat (map (piece_text eng vocab) new)"
      by auto
    show ?thesis
    proof (cases ?out)
      case (Finished gv')
      then have "fst (generate_from_tokens eng env ctx vocab c maxTokens n_tokens) =
                   string_to_jstring (Some env) (gen_result gv')"
        and "tokens (snd (generate_from_tokens eng env ctx vocab c maxTokens n_tokens)) = gen_tokens gv'"
        using False by (simp_all add: generate_from_tokens_def Let_def session_of_def)
      moreover have "gen_result gv' = concat (map (piece_text eng vocab) new)"
        using new(3) Finished by blast
      moreover have "gen_tokens gv' = tokens ctx @ new" using new(1) Finished by simp
      ultimately show ?thesis using new(2) by metis
    next
      case (Thrown gv')
      then show ?thesis using False by (simp add: generate_from_tokens_def Let_def)
    qed
  qed
qed

lemma generate_try_reaches_tokens:
  assumes "\<not> bad_alloc eng Prompt_string" and "jstring_to_string e prompt \<noteq> []"
    and "\<not> bad_alloc eng Tokens_resize"
    and "0 \<le> fst (llama_tokenize eng (llama_model_get_vocab eng m) (jstring_to_string e prompt)
                 (int (length (jstring_to_string e prompt)))
                 (uint (llama_n_ctx eng (llama_memory_clear eng c) div 2)) True False)"
  shows "generate_try eng e ctx m c prompt maxTokens =
     (let input = jstring_to_string e prompt;
          c0 = llama_memory_clear eng c;
          vocab = llama_model_get_vocab eng m;
          max_input_tokens = uint (llama_n_ctx eng c0 div 2);
          n_tokens = fst (llama_tokenize eng vocab input (int (length input)) max_input_tokens True False);
          written = snd (llama_tokenize eng vocab input (int (length input)) max_input_tokens True False)
      in generate_from_tokens eng e
           (ctx\<lparr>context_ptr := Some c0,
                 tokens := resize (tokenize_into (resize [] (nat max_input_tokens)) written) (nat n_tokens)\<rparr>)
           vocab c0 (if maxTokens \<le> 0 then 256 else maxTokens) n_tokens)"
  using assms by (simp add: generate_try_def Let_def)

lemma generate_try_text:
  "fst (generate_try eng e ctx m c prompt maxTokens) \<in>
     string_to_jstring (Some e) `
       {''Error: Exception during text generation'', ''Error: Empty prompt'',
        ''Error: Tokenization failed'', ''Error: Failed to decode prompt''} \<or>
   (\<exists>old new. tokens (snd (generate_try eng e ctx m c prompt maxTokens)) = old @ new \<and>
      (\<forall>t\<in>set new. \<not> llama_vocab_is_eog eng (llama_model_get_vocab eng m) t) \<and>
      fst (generate_try eng e ctx m c prompt maxTokens) =
        string_to_jstring (Some e) (concat (map (piece_text eng (llama_model_get_vocab eng m)) new)))"
proof -
  let ?input = "jstring_to_string e prompt"
  let ?c0 = "llama_memory_clear eng c"
  let ?vocab = "llama_model_get_vocab eng m"
  let ?n = "fst (llama_tokenize eng ?vocab ?input (int (length ?input))
                   (uint (llama_n_ctx eng ?c0 div 2)) True False)"
  let ?r = "generate_try eng e ctx m c prompt maxTokens"
  let ?E = "string_to_jstring (Some e) `
       {''Error: Exception during text generation'', ''Error: Empty prompt'',
        ''Error: Tokenization failed'', ''Error: Failed to decode prompt''}"
  have e1: "string_to_jstring (Some e) ''Error: Exception during text generation'' \<in> ?E"
    and e2: "string_to_jstring (Some e) ''Error: Empty prompt'' \<in> ?E"
    and e3: "string_to_jstring (Some e) ''Error: Tokenization failed'' \<in> ?E"
    and e4: "string_to_jstring (Some e) ''Error: Failed to decode prompt'' \<in> ?E"
    by (rule imageI, simp)+
  have "fst ?r \<in> ?E \<or>
   (\<exists>old new. tokens (snd ?r) = old @ new \<and>
      (\<forall>t\<in>set new. \<not> llama_vocab_is_eog eng ?vocab t) \<and>
      fst ?r = string_to_jstring (Some e) (concat (map (piece_text eng ?vocab) new)))"
  proof (cases "bad_alloc eng Prompt_string")
    case True
    then have "fst ?r = string_to_jstring (Some e) ''Error: Exception during text generation''"
      by (simp add: generate_try_def)
    then show ?thesis using e1 by simp
  next
    case f1: False
    show ?thesis
    proof (cases "?input = []")
      case True
      then have "fst ?r = string_to_jstring (Some e) ''Error: Empty prompt''"
        using f1 by (simp add: generate_try_def)
      then show ?thesis using e2 by simp
    next
      case f2: False
      show ?thesis
      proof (cases "bad_alloc eng Tokens_resize")
        case True
        then have "fst ?r = string_to_jstring (Some e) ''Error: Exception during text generation''"
          using f1 f2 by (simp add: generate_try_def Let_def)
        then show ?thesis using e1 by simp
      next
        case f3: False
        show ?thesis
        proof (cases "?n < 0")
          case True
          then have "fst ?r = string_to_jstring (Some e) ''Error: Tokenization failed''"
            using f1 f2 f3 by (simp add: generate_try_def Let_def)
          then show ?thesis using e3 by simp
        next
          case False
          then have f4: "0 \<le> ?n" by simp
          note r = generate_try_reaches_tokens[OF f1 f2 f3 f4, of ctx maxTokens, unfolded Let_def]
          let ?ctx2 = "ctx\<lparr>context_ptr := Some ?c0,
                 tokens := resize (tokenize_into (resize [] (nat (uint (llama_n_ctx eng ?c0 div 2))))
                   (snd (llama_tokenize eng ?vocab ?input (int (length ?input))
                          (uint (llama_n_ctx eng ?c0 div 2)) True False))) (nat ?n)\<rparr>"
          let ?g = "generate_from_tokens eng e ?ctx2 ?vocab ?c0 (if maxTokens \<le> 0 then 256 else maxTokens) ?n"
          have rg: "?r = ?g" by (rule r)
          from generate_from_tokens_text[where eng = eng and env = e and vocab = ?vocab and c = ?c0
              and n_tokens = ?n and maxTokens = "if maxTokens \<le> 0 then 256 else maxTokens"
              and ctx = ?ctx2]
          consider "fst ?g = string_to_jstring (Some e) ''Error: Failed to decode prompt''"
            | "fst ?g = string_to_jstring (Some e) ''Error: Exception during text generation''"
            | new where "tokens (snd ?g) = tokens ?ctx2 @ new"
                "\<forall>t\<in>set new. \<not> llama_vocab_is_eog eng ?vocab t"
                "fst ?g = string_to_jstring (Some e) (concat (map (piece_text eng ?vocab) new))"
            by blast
          then show ?thesis
          proof cases
            case 1
            then show ?thesis unfolding rg using e4 by simp
          next
            case 2
            then show ?thesis unfolding rg using e1 by simp
          next
            case 3
            have "\<exists>old new. tokens (snd ?g) = old @ new \<and>
              (\<forall>t\<in>set new. \<not> llama_vocab_is_eog eng ?vocab t) \<and>
              fst ?g = string_to_jstring (Some e) (concat (map (piece_text eng ?vocab) new))"
              using 3 by blast
            then show ?thesis unfolding rg by (rule disjI2)
          qed
        qed
      qed
    qed
  qed
  then show ?thesis .
qed

text \<open>
  Claim C5, for scores that are numbers. On logits with one score for each token of a
  vocabulary that is not empty, none of the scores NaN, the token that
  \<open>sample_token_greedy\<close> returns is in the vocabulary, no score is higher than its score,
  and every token before it has a strictly lower score: it is the first token with the
  highest score. When only the first score is known to be a number, the token returned has
  a score that is a number, and it is the first token with the highest score among the
  scores that are numbers. An iteration of the loop that has logits, selects a token that
  does not end the sequence and meets no allocation failure appends exactly this token to
  the history, whether the decode that follows succeeds or not; an iteration that goes on
  has appended exactly this token; no iteration appends anything else; and the result of a
  generation does not depend on \<open>temperature\<close>, \<open>topP\<close> or \<open>topK\<close>.
\<close>

theorem greedy_selection_first_maximum:
  fixes eng :: "('m, 'c, 'v, 's::linorder) engine"
  shows
  "(model ctx = Some m \<and> context_ptr ctx = Some c \<and>
    1 \<le> llama_vocab_n_tokens eng (llama_model_get_vocab eng m) \<and>
    llama_vocab_n_tokens eng (llama_model_get_vocab eng m) = int (length xs) \<longrightarrow>
      0 \<le> sample_token_greedy eng (Some ctx) (Some (map Num xs)) \<and>
      nat (sample_token_greedy eng (Some ctx) (Some (map Num xs))) < length xs \<and>
      (\<forall>j < length xs.
         xs ! j \<le> xs ! nat (sample_token_greedy eng (Some ctx) (Some (map Num xs)))) \<and>
      (\<forall>j < nat (sample_token_greedy eng (Some ctx) (Some (map Num xs))).
         xs ! j < xs ! nat (sample_token_greedy eng (Some ctx) (Some (map Num xs))))) \<and>
   (model ctx = Some m \<and> context_ptr ctx = Some c \<and>
    1 \<le> llama_vocab_n_tokens eng (llama_model_get_vocab eng m) \<and>
    llama_vocab_n_tokens eng (llama_model_get_vocab eng m) = int (length lg) \<and>
    lg ! 0 \<noteq> NaN \<longrightarrow>
      0 \<le> sample_token_greedy eng (Some ctx) (Some lg) \<and>
      nat (sample_token_greedy eng (Some ctx) (Some lg)) < length lg \<and>
      (\<exists>u. lg ! nat (sample_token_greedy eng (Some ctx) (Some lg)) = Num u \<and>
         (\<forall>j w. j < length lg \<and> lg ! j = Num w \<longrightarrow> w \<le> u) \<and>
         (\<forall>j w. j < nat (sample_token_greedy eng (Some ctx) (Some lg)) \<and> lg ! j = Num w
             \<longrightarrow> w < u))) \<and>
   (llama_get_logits_ith eng (gen_context gv) (batch_n_tokens (gen_batch gv) - 1) = Some logits \<and>
    \<not> llama_vocab_is_eog eng vocab
        (sample_token_greedy eng (Some (session_of ctx gv)) (Some logits)) \<and>
    \<not> (0 < fst (llama_token_to_piece eng vocab
                  (sample_token_greedy eng (Some (session_of ctx gv)) (Some logits)) 256 0 False) \<and>
        bad_alloc eng (Result_append i)) \<and>
    \<not> bad_alloc eng (Tokens_push_back i) \<longrightarrow>
      (\<exists>gv'. (generate_step eng ctx vocab i gv = Break gv' \<or>
              generate_step eng ctx vocab i gv = Continue gv') \<and>
             gen_tokens gv' =
               gen_tokens gv @ [sample_token_greedy eng (Some (session_of ctx gv)) (Some logits)])) \<and>
   (generate_step eng ctx vocab i gv = Continue next_gv \<longrightarrow>
      (\<exists>lg'. llama_get_logits_ith eng (gen_context gv) (batch_n_tokens (gen_batch gv) - 1) = Some lg' \<and>
         gen_tokens next_gv =
           gen_tokens gv @ [sample_token_greedy eng (Some (session_of ctx gv)) (Some lg')])) \<and>
   (generate_step eng ctx vocab i gv \<in> {Break last_gv, Throw last_gv, Continue last_gv} \<longrightarrow>
      gen_tokens last_gv = gen_tokens gv \<or>
      (\<exists>lg'. llama_get_logits_ith eng (gen_context gv) (batch_n_tokens (gen_batch gv) - 1) = Some lg' \<and>
         gen_tokens last_gv =
           gen_tokens gv @ [sample_token_greedy eng (Some (session_of ctx gv)) (Some lg')])) \<and>
   nativeGenerateText eng env st handle prompt maxTokens temperature topP topK =
   nativeGenerateText eng env st handle prompt maxTokens temperature' topP' topK'"
proof (intro conjI impI)
  assume "model ctx = Some m \<and> context_ptr ctx = Some c \<and>
    1 \<le> llama_vocab_n_tokens eng (llama_model_get_vocab eng m) \<and>
    llama_vocab_n_tokens eng (llama_model_get_vocab eng m) = int (length xs)"
  then have a: "model ctx = Some m" "context_ptr ctx = Some c"
    "1 \<le> llama_vocab_n_tokens eng (llama_model_get_vocab eng m)"
    "llama_vocab_n_tokens eng (llama_model_get_vocab eng m) = int (length xs)"
    by simp_all
  from sample_token_greedy_argmax[OF a]
  show "0 \<le> sample_token_greedy eng (Some ctx) (Some (map Num xs))"
    and "nat (sample_token_greedy eng (Some ctx) (Some (map Num xs))) < length xs"
    and "\<forall>j < length xs.
         xs ! j \<le> xs ! nat (sample_token_greedy eng (Some ctx) (Some (map Num xs)))"
    and "\<forall>j < nat (sample_token_greedy eng (Some ctx) (Some (map Num xs))).
         xs ! j < xs ! nat (sample_token_greedy eng (Some ctx) (Some (map Num xs)))"
    by blast+
next
  assume "model ctx = Some m \<and> context_ptr ctx = Some c \<and>
    1 \<le> llama_vocab_n_tokens eng (llama_model_get_vocab eng m) \<and>
    llama_vocab_n_tokens eng (llama_model_get_vocab eng m) = int (length lg) \<and>
    lg ! 0 \<noteq> NaN"
  then have a: "model ctx = Some m" "context_ptr ctx = Some c"
    "1 \<le> llama_vocab_n_tokens eng (llama_model_get_vocab eng m)"
    "llama_vocab_n_tokens eng (llama_model_get_vocab eng m) = int (length lg)"
    "lg ! 0 \<noteq> NaN"
    by simp_all
  from sample_token_greedy_first_number[OF a]
  show "0 \<le> sample_token_greedy eng (Some ctx) (Some lg)"
    and "nat (sample_token_greedy eng (Some ctx) (Some lg)) < length lg"
    and "\<exists>u. lg ! nat (sample_token_greedy eng (Some ctx) (Some lg)) = Num u \<and>
         (\<forall>j w. j < length lg \<and> lg ! j = Num w \<longrightarrow> w \<le> u) \<and>
         (\<forall>j w. j < nat (sample_token_greedy eng (Some ctx) (Some lg)) \<and> lg ! j = Num w
             \<longrightarrow> w < u)"
    by blast+
next
  assume "llama_get_logits_ith eng (gen_context gv) (batch_n_tokens (gen_batch gv) - 1) = Some logits \<and>
    \<not> llama_vocab_is_eog eng vocab
        (sample_token_greedy eng (Some (session_of ctx gv)) (Some logits)) \<and>
    \<not> (0 < fst (llama_token_to_piece eng vocab
                  (sample_token_greedy eng (Some (session_of ctx gv)) (Some logits)) 256 0 False) \<and>
        bad_alloc eng (Result_append i)) \<and>
    \<not> bad_alloc eng (Tokens_push_back i)"
  then have a:
    "llama_get_logits_ith eng (gen_context gv) (batch_n_tokens (gen_batch gv) - 1) = Some logits"
    "\<not> llama_vocab_is_eog eng vocab
        (sample_token_greedy eng (Some (session_of ctx gv)) (Some logits))"
    "\<not> (0 < fst (llama_token_to_piece eng vocab
                  (sample_token_greedy eng (Some (session_of ctx gv)) (Some logits)) 256 0 False) \<and>
        bad_alloc eng (Result_append i))"
    "\<not> bad_alloc eng (Tokens_push_back i)"
    by blast+
  show "\<exists>gv'. (generate_step eng ctx vocab i gv = Break gv' \<or>
              generate_step eng ctx vocab i gv = Continue gv') \<and>
             gen_tokens gv' =
               gen_tokens gv @ [sample_token_greedy eng (Some (session_of ctx gv)) (Some logits)]"
    by (rule generate_step_appends_greedy[OF a])
next
  assume "generate_step eng ctx vocab i gv = Continue next_gv"
  from generate_step_continue[OF this]
  show "\<exists>lg'. llama_get_logits_ith eng (gen_context gv) (batch_n_tokens (gen_batch gv) - 1) = Some lg' \<and>
         gen_tokens next_gv =
           gen_tokens gv @ [sample_token_greedy eng (Some (session_of ctx gv)) (Some lg')]"
    by blast
next
  assume "generate_step eng ctx vocab i gv \<in> {Break last_gv, Throw last_gv, Continue last_gv}"
  then have "generate_step eng ctx vocab i gv = Break last_gv \<or>
             generate_step eng ctx vocab i gv = Throw last_gv \<or>
             generate_step eng ctx vocab i gv = Continue last_gv"
    by simp
  from generate_step_tokens[OF refl this]
  show "gen_tokens last_gv = gen_tokens gv \<or>
      (\<exists>lg'. llama_get_logits_ith eng (gen_context gv) (batch_n_tokens (gen_batch gv) - 1) = Some lg' \<and>
         gen_tokens last_gv =
           gen_tokens gv @ [sample_token_greedy eng (Some (session_of ctx gv)) (Some lg')])" .
next
  show "nativeGenerateText eng env st handle prompt maxTokens temperature topP topK =
        nativeGenerateText eng env st handle prompt maxTokens temperature' topP' topK'"
    by (rule generate_ignores_sampling_parameters)
qed

theorem greedy_selection_example:
  "sample_token_greedy (example_engine 8 8)
     (Some \<lparr>model = Some 0, context_ptr = Some (8, []), tokens = [], rng = 42\<rparr>)
     (Some (map Num [0, 5, 5, 1])) = 1 \<and>
   sample_token_greedy (example_engine 8 8)
     (Some \<lparr>model = Some 0, context_ptr = Some (8, []), tokens = [], rng = 42\<rparr>)
     (Some [Num 0, NaN, Num 5, Num 5]) = 2 \<and>
   generate_step (example_engine 8 8)
     \<lparr>model = Some 0, context_ptr = Some (8, []), tokens = [], rng = 42\<rparr> () 0
     \<lparr>gen_result = [], gen_batch = prompt_batch [0] 1, gen_tokens = [0], gen_context = (8, [0])\<rparr> =
   Continue \<lparr>gen_result = ''b'', gen_batch = next_batch (prompt_batch [0] 1) 1 1,
             gen_tokens = [0, 1], gen_context = (8, [0, 1])\<rparr> \<and>
   nativeGenerateText (example_engine 8 8) (Some example_env) example_registry 1 (Some ''a'') 0 0.8 0.9 40 =
   nativeGenerateText (example_engine 8 8) (Some example_env) example_registry 1 (Some ''a'') 0 0 0 0"
proof -
  let ?ctx = "\<lparr>model = Some (0::nat), context_ptr = Some (8 :: 32 word, [] :: llama_token list),
               tokens = [], rng = 42\<rparr>"
  let ?gv = "\<lparr>gen_result = [], gen_batch = prompt_batch [0] 1, gen_tokens = [0 :: int],
              gen_context = (8 :: 32 word, [0 :: int])\<rparr>"
  let ?next = "\<lparr>gen_result = ''b'', gen_batch = next_batch (prompt_batch [0] 1) 1 1,
                gen_tokens = [0, 1 :: int], gen_context = (8 :: 32 word, [0, 1 :: int])\<rparr>"
  have v: "sample_token_greedy (example_engine 8 8) (Some ?ctx) (Some (map Num [0, 5, 5, 1])) = 1"
    by code_simp
  have w: "sample_token_greedy (example_engine 8 8) (Some ?ctx) (Some [Num 0, NaN, Num 5, Num 5]) = 2"
    by code_simp
  have s: "generate_step (example_engine 8 8) ?ctx () 0 ?gv = Continue ?next"
    by (simp add: generate_step_def example_engine_def sample_token_greedy_def session_of_def
          greedy_scan.simps next_batch_def prompt_batch_def piece_text_def Let_def)
  have n: "llama_vocab_n_tokens (example_engine 8 8) (llama_model_get_vocab (example_engine 8 8) 0) = 4"
    by (simp add: example_engine_def)
  have l: "llama_get_logits_ith (example_engine 8 8) (gen_context ?gv) (batch_n_tokens (gen_batch ?gv) - 1) =
             Some [Num 0, Num 1, Num 0, Num 0]"
    by (simp add: example_engine_def)
  have t: "sample_token_greedy (example_engine 8 8) (Some (session_of ?ctx ?gv))
             (Some [Num 0, Num 1, Num 0, Num 0]) = 1"
    by (simp add: example_engine_def sample_token_greedy_def session_of_def greedy_scan.simps)
  have e: "\<not> llama_vocab_is_eog (example_engine 8 8) () 1"
    by (simp add: example_engine_def)
  have b: "\<not> bad_alloc (example_engine 8 8) site" for site
    by (simp add: example_engine_def)
  show ?thesis
    using
      greedy_selection_first_maximum
        [where eng = "example_engine 8 8" and ctx = ?ctx and m = 0 and c = "(8, [])"
           and xs = "[0, 5, 5, 1]" and lg = "[Num 0, NaN, Num 5, Num 5]"
           and logits = "[Num 0, Num 1, Num 0, Num 0]"
           and env = "Some example_env" and st = example_registry
           and handle = 1 and prompt = "Some ''a''" and maxTokens = 0 and temperature = "0.8"
           and topP = "0.9" and topK = 40 and temperature' = 0 and topP' = 0 and topK' = 0
           and vocab = "()" and i = 0 and gv = ?gv and next_gv = ?next and last_gv = ?next]
    unfolding v w s n l t
    by (simp add: e b)
qed

text \<open>
  Claim C5 does not hold on every logits array. A first score that is NaN is never replaced,
  since no comparison with NaN holds: on the scores NaN, 1, 2, 0 of a vocabulary of four
  tokens, token 0 is returned. Its score is neither higher than nor equal to the score of
  token 2, which is higher than the scores of tokens 1 and 3.
\<close>

theorem greedy_selection_nan_counterexample:
  "llama_vocab_n_tokens (example_engine 8 8) (llama_model_get_vocab (example_engine 8 8) 0) = 4 \<and>
   sample_token_greedy (example_engine 8 8)
     (Some \<lparr>model = Some 0, context_ptr = Some (8, []), tokens = [], rng = 42\<rparr>)
     (Some [NaN, Num 1, Num 2, Num 0]) = 0 \<and>
   \<not> float_gt NaN (Num (2 :: int)) \<and> NaN \<noteq> Num (2 :: int) \<and>
   float_gt (Num (2 :: int)) (Num 1) \<and> float_gt (Num (2 :: int)) (Num 0)"
proof -
  have "sample_token_greedy (example_engine 8 8)
     (Some \<lparr>model = Some 0, context_ptr = Some (8, []), tokens = [], rng = 42\<rparr>)
     (Some [NaN, Num 1, Num 2, Num 0]) = 0"
    by code_simp
  moreover have "llama_vocab_n_tokens (example_engine 8 8)
      (llama_model_get_vocab (example_engine 8 8) 0) = 4"
    by (simp add: example_engine_def)
  ultimately show ?thesis by simp
qed

text \<open>
  Claim C6. When the token selected in an iteration is an end-of-sequence token, the
  iteration breaks with the loop variables as they were: nothing is added to the text or to
  the history, and the context is the one before the iteration, so the token is not decoded;
  the loop ends there. Hence every token that a loop adds to the history is not an
  end-of-sequence token, the text of a finished loop is the text of exactly these tokens,
  and a call returns either one of its error strings or the text of the tokens it has
  generated, none of which ends the sequence.
\<close>

theorem end_of_sequence_stops_generation:
  "(llama_get_logits_ith eng (gen_context gv) (batch_n_tokens (gen_batch gv) - 1) = Some lg \<and>
    llama_vocab_is_eog eng vocab (sample_token_greedy eng (Some (session_of ctx gv)) (Some lg)) \<longrightarrow>
      generate_step eng ctx vocab i gv = Break gv \<and>
      (i < max_gen_tokens \<longrightarrow> generate_loop eng ctx vocab max_gen_tokens i gv = Finished gv)) \<and>
   (\<exists>new. gen_tokens (exit_vars (generate_loop eng ctx vocab max_gen_tokens i gv)) = gen_tokens gv @ new \<and>
      (\<forall>t\<in>set new. \<not> llama_vocab_is_eog eng vocab t) \<and>
      (\<forall>gv'. generate_loop eng ctx vocab max_gen_tokens i gv = Finished gv' \<longrightarrow>
         gen_result gv' = gen_result gv @ concat (map (piece_text eng vocab) new))) \<and>
   (fst (generate_try eng e ctx m c prompt maxTokens) \<in>
      string_to_jstring (Some e) `
        {''Error: Exception during text generation'', ''Error: Empty prompt'',
         ''Error: Tokenization failed'', ''Error: Failed to decode prompt''} \<or>
    (\<exists>old new. tokens (snd (generate_try eng e ctx m c prompt maxTokens)) = old @ new \<and>
       (\<forall>t\<in>set new. \<not> llama_vocab_is_eog eng (llama_model_get_vocab eng m) t) \<and>
       fst (generate_try eng e ctx m c prompt maxTokens) =
         string_to_jstring (Some e) (concat (map (piece_text eng (llama_model_get_vocab eng m)) new))))"
proof (intro conjI impI)
  assume a: "llama_get_logits_ith eng (gen_context gv) (batch_n_tokens (gen_batch gv) - 1) = Some lg \<and>
    llama_vocab_is_eog eng vocab (sample_token_greedy eng (Some (session_of ctx gv)) (Some lg))"
  then show s: "generate_step eng ctx vocab i gv = Break gv"
    using generate_step_eog[of eng gv lg vocab ctx i] by simp
  assume "i < max_gen_tokens"
  then show "generate_loop eng ctx vocab max_gen_tokens i gv = Finished gv"
    using s by (rule generate_loop_break)
next
  from generate_loop_tokens[of eng ctx vocab max_gen_tokens i gv]
  show "\<exists>new. gen_tokens (exit_vars (generate_loop eng ctx vocab max_gen_tokens i gv)) = gen_tokens gv @ new \<and>
      (\<forall>t\<in>set new. \<not> llama_vocab_is_eog eng vocab t) \<and>
      (\<forall>gv'. generate_loop eng ctx vocab max_gen_tokens i gv = Finished gv' \<longrightarrow>
         gen_result gv' = gen_result gv @ concat (map (piece_text eng vocab) new))"
    by blast
next
  show "fst (generate_try eng e ctx m c prompt maxTokens) \<in>
      string_to_jstring (Some e) `
        {''Error: Exception during text generation'', ''Error: Empty prompt'',
         ''Error: Tokenization failed'', ''Error: Failed to decode prompt''} \<or>
    (\<exists>old new. tokens (snd (generate_try eng e ctx m c prompt maxTokens)) = old @ new \<and>
       (\<forall>t\<in>set new. \<not> llama_vocab_is_eog eng (llama_model_get_vocab eng m) t) \<and>
       fst (generate_try eng e ctx m c prompt maxTokens) =
         string_to_jstring (Some e) (concat (map (piece_text eng (llama_model_get_vocab eng m)) new)))"
    by (rule generate_try_text)
qed

theorem end_of_sequence_example:
  "generate_loop (example_engine 8 8)
     \<lparr>model = Some 0, context_ptr = Some (8, [0]), tokens = [0], rng = 42\<rparr> () 7 2
     \<lparr>gen_result = ''b'', gen_batch = next_batch (prompt_batch [0] 1) 2 2, gen_tokens = [0, 1, 2],
      gen_context = (8, [0, 1, 2])\<rparr> =
   Finished \<lparr>gen_result = ''b'', gen_batch = next_batch (prompt_batch [0] 1) 2 2,
             gen_tokens = [0, 1, 2], gen_context = (8, [0, 1, 2])\<rparr>"
  using end_of_sequence_stops_generation
    [where eng = "example_engine 8 8"
       and ctx = "\<lparr>model = Some 0, context_ptr = Some (8, [0]), tokens = [0], rng = 42\<rparr>"
       and vocab = "()" and i = 2 and max_gen_tokens = 7 and lg = "[Num 0, Num 0, Num 0, Num 1]"
       and gv = "\<lparr>gen_result = ''b'', gen_batch = next_batch (prompt_batch [0] 1) 2 2,
                  gen_tokens = [0, 1, 2], gen_context = (8, [0, 1, 2])\<rparr>"
       and e = example_env and m = 0 and c = "(8, [])" and prompt = None and maxTokens = 0]
  by (simp add: example_engine_def sample_token_greedy_def session_of_def greedy_scan.simps)

lemma generate_from_tokens_prefill_fails:
  assumes "fst (llama_decode eng c (prompt_batch (tokens ctx) n_tokens)) \<noteq> 0"
  shows "generate_from_tokens eng env ctx vocab c maxTokens n_tokens =
           (string_to_jstring (Some env) ''Error: Failed to decode prompt'',
            ctx\<lparr>context_ptr := Some (snd (llama_decode eng c (prompt_batch (tokens ctx) n_tokens)))\<rparr>)"
  using assms by (simp add: generate_from_tokens_def Let_def)

lemma generate_from_tokens_finished:
  assumes "fst (llama_decode eng c (prompt_batch (tokens ctx) n_tokens)) = 0"
    and "generate_loop eng
           (ctx\<lparr>context_ptr := Some (snd (llama_decode eng c (prompt_batch (tokens ctx) n_tokens)))\<rparr>)
           vocab
           (min maxTokens
              (wrap_int (sint (llama_n_ctx eng (snd (llama_decode eng c (prompt_batch (tokens ctx) n_tokens))))
                         - n_tokens)))
           0
           \<lparr>gen_result = [], gen_batch = prompt_batch (tokens ctx) n_tokens, gen_tokens = tokens ctx,
            gen_context = snd (llama_decode eng c (prompt_batch (tokens ctx) n_tokens))\<rparr> = Finished gv'"
  shows "fst (generate_from_tokens eng env ctx vocab c maxTokens n_tokens) =
           string_to_jstring (Some env) (gen_result gv')"
  using assms by (simp add: generate_from_tokens_def Let_def)

text \<open>
  Claim C7. When the decode of the prompt batch returns a value that is not zero, the call
  returns the string \<open>Error: Failed to decode prompt\<close> and no text. In the loop, when no
  logits are available the loop finishes with the variables as they are, and when the decode
  of the new token returns a value that is not zero the loop finishes with the text
  accumulated so far, the text of that token included. The text of a finished loop is what
  the call returns, as it is. A call with a prompt that is not empty and is tokenized, and
  with no allocation fault before, gets to the decode of the prompt.
\<close>

theorem decode_failure_before_and_inside_loop:
  "(fst (llama_decode eng c (prompt_batch (tokens ctx) n_tokens)) \<noteq> 0 \<longrightarrow>
      fst (generate_from_tokens eng env ctx vocab c maxTokens n_tokens) =
        string_to_jstring (Some env) ''Error: Failed to decode prompt'') \<and>
   (i < max_gen_tokens \<and>
    llama_get_logits_ith eng (gen_context gv) (batch_n_tokens (gen_batch gv) - 1) = None \<longrightarrow>
      generate_loop eng ctx vocab max_gen_tokens i gv = Finished gv) \<and>
   (i < max_gen_tokens \<and>
    llama_get_logits_ith eng (gen_context gv) (batch_n_tokens (gen_batch gv) - 1) = Some lg \<and>
    t = sample_token_greedy eng (Some (session_of ctx gv)) (Some lg) \<and>
    \<not> llama_vocab_is_eog eng vocab t \<and>
    \<not> (0 < fst (llama_token_to_piece eng vocab t 256 0 False) \<and> bad_alloc eng (Result_append i)) \<and>
    \<not> bad_alloc eng (Tokens_push_back i) \<and>
    fst (llama_decode eng (gen_context gv) (next_batch (gen_batch gv) t (length (gen_tokens gv)))) \<noteq> 0 \<longrightarrow>
      (\<exists>gv'. generate_loop eng ctx vocab max_gen_tokens i gv = Finished gv' \<and>
         gen_result gv' = gen_result gv @ piece_text eng vocab t)) \<and>
   (let c1 = snd (llama_decode eng c (prompt_batch (tokens ctx) n_tokens))
    in fst (llama_decode eng c (prompt_batch (tokens ctx) n_tokens)) = 0 \<and>
       generate_loop eng (ctx\<lparr>context_ptr := Some c1\<rparr>) vocab
         (min maxTokens (wrap_int (sint (llama_n_ctx eng c1) - n_tokens))) 0
         \<lparr>gen_result = [], gen_batch = prompt_batch (tokens ctx) n_tokens, gen_tokens = tokens ctx,
          gen_context = c1\<rparr> = Finished gv'' \<longrightarrow>
       fst (generate_from_tokens eng env ctx vocab c maxTokens n_tokens) =
         string_to_jstring (Some env) (gen_result gv'')) \<and>
   (let input = jstring_to_string env prompt;
        c0 = llama_memory_clear eng c;
        max_input_tokens = uint (llama_n_ctx eng c0 div 2);
        n_prompt = fst (llama_tokenize eng (llama_model_get_vocab eng m) input (int (length input))
                          max_input_tokens True False);
        written = snd (llama_tokenize eng (llama_model_get_vocab eng m) input (int (length input))
                          max_input_tokens True False)
    in \<not> bad_alloc eng Prompt_string \<and> input \<noteq> [] \<and> \<not> bad_alloc eng Tokens_resize \<and>
       0 \<le> n_prompt \<longrightarrow>
       generate_try eng env ctx m c prompt maxTokens =
         generate_from_tokens eng env
           (ctx\<lparr>context_ptr := Some c0,
                 tokens := resize (tokenize_into (resize [] (nat max_input_tokens)) written)
                             (nat n_prompt)\<rparr>)
           (llama_model_get_vocab eng m) c0 (if maxTokens \<le> 0 then 256 else maxTokens) n_prompt)"
proof (intro conjI)
  show "fst (llama_decode eng c (prompt_batch (tokens ctx) n_tokens)) \<noteq> 0 \<longrightarrow>
      fst (generate_from_tokens eng env ctx vocab c maxTokens n_tokens) =
        string_to_jstring (Some env) ''Error: Failed to decode prompt''"
    by (simp add: generate_from_tokens_prefill_fails)
next
  show "i < max_gen_tokens \<and>
    llama_get_logits_ith eng (gen_context gv) (batch_n_tokens (gen_batch gv) - 1) = None \<longrightarrow>
      generate_loop eng ctx vocab max_gen_tokens i gv = Finished gv"
  proof
    assume a: "i < max_gen_tokens \<and>
      llama_get_logits_ith eng (gen_context gv) (batch_n_tokens (gen_batch gv) - 1) = None"
    then have "generate_step eng ctx vocab i gv = Break gv"
      by (simp add: generate_step_no_logits)
    with a show "generate_loop eng ctx vocab max_gen_tokens i gv = Finished gv"
      by (simp add: generate_loop_break)
  qed
next
  show "i < max_gen_tokens \<and>
    llama_get_logits_ith eng (gen_context gv) (batch_n_tokens (gen_batch gv) - 1) = Some lg \<and>
    t = sample_token_greedy eng (Some (session_of ctx gv)) (Some lg) \<and>
    \<not> llama_vocab_is_eog eng vocab t \<and>
    \<not> (0 < fst (llama_token_to_piece eng vocab t 256 0 False) \<and> bad_alloc eng (Result_append i)) \<and>
    \<not> bad_alloc eng (Tokens_push_back i) \<and>
    fst (llama_decode eng (gen_context gv) (next_batch (gen_batch gv) t (length (gen_tokens gv)))) \<noteq> 0 \<longrightarrow>
      (\<exists>gv'. generate_loop eng ctx vocab max_gen_tokens i gv = Finished gv' \<and>
         gen_result gv' = gen_result gv @ piece_text eng vocab t)"
  proof
    assume a: "i < max_gen_tokens \<and>
      llama_get_logits_ith eng (gen_context gv) (batch_n_tokens (gen_batch gv) - 1) = Some lg \<and>
      t = sample_token_greedy eng (Some (session_of ctx gv)) (Some lg) \<and>
      \<not> llama_vocab_is_eog eng vocab t \<and>
      \<not> (0 < fst (llama_token_to_piece eng vocab t 256 0 False) \<and> bad_alloc eng (Result_append i)) \<and>
      \<not> bad_alloc eng (Tokens_push_back i) \<and>
      fst (llama_decode eng (gen_context gv) (next_batch (gen_batch gv) t (length (gen_tokens gv)))) \<noteq> 0"
    let ?b = "next_batch (gen_batch gv) t (length (gen_tokens gv))"
    let ?gv' = "\<lparr>gen_result = gen_result gv @ piece_text eng vocab t, gen_batch = ?b,
                  gen_tokens = gen_tokens gv @ [t],
                  gen_context = snd (llama_decode eng (gen_context gv) ?b)\<rparr>"
    from a have a1: "i < max_gen_tokens"
      and a2: "llama_get_logits_ith eng (gen_context gv) (batch_n_tokens (gen_batch gv) - 1) = Some lg"
      and a3: "t = sample_token_greedy eng (Some (session_of ctx gv)) (Some lg)"
      and a4: "\<not> llama_vocab_is_eog eng vocab t"
      and a5: "\<not> (0 < fst (llama_token_to_piece eng vocab t 256 0 False) \<and>
                  bad_alloc eng (Result_append i))"
      and a6: "\<not> bad_alloc eng (Tokens_push_back i)"
      and a7: "fst (llama_decode eng (gen_context gv) ?b) \<noteq> 0"
      by blast+
    have "generate_step eng ctx vocab i gv = Break ?gv'"
      unfolding generate_step_decode[OF a2 a3 a4 a5 a6 refl] using a7 by (rule if_P)
    with a1 have "generate_loop eng ctx vocab max_gen_tokens i gv = Finished ?gv'"
      by (rule generate_loop_break)
    then show "\<exists>gv'. generate_loop eng ctx vocab max_gen_tokens i gv = Finished gv' \<and>
         gen_result gv' = gen_result gv @ piece_text eng vocab t"
      by simp
  qed
next
  show "let c1 = snd (llama_decode eng c (prompt_batch (tokens ctx) n_tokens))
    in fst (llama_decode eng c (prompt_batch (tokens ctx) n_tokens)) = 0 \<and>
       generate_loop eng (ctx\<lparr>context_ptr := Some c1\<rparr>) vocab
         (min maxTokens (wrap_int (sint (llama_n_ctx eng c1) - n_tokens))) 0
         \<lparr>gen_result = [], gen_batch = prompt_batch (tokens ctx) n_tokens, gen_tokens = tokens ctx,
          gen_context = c1\<rparr> = Finished gv'' \<longrightarrow>
       fst (generate_from_tokens eng env ctx vocab c maxTokens n_tokens) =
         string_to_jstring (Some env) (gen_result gv'')"
    unfolding Let_def by (simp add: generate_from_tokens_finished)
next
  show "let input = jstring_to_string env prompt;
        c0 = llama_memory_clear eng c;
        max_input_tokens = uint (llama_n_ctx eng c0 div 2);
        n_prompt = fst (llama_tokenize eng (llama_model_get_vocab eng m) input (int (length input))
                          max_input_tokens True False);
        written = snd (llama_tokenize eng (llama_model_get_vocab eng m) input (int (length input))
                          max_input_tokens True False)
    in \<not> bad_alloc eng Prompt_string \<and> input \<noteq> [] \<and> \<not> bad_alloc eng Tokens_resize \<and>
       0 \<le> n_prompt \<longrightarrow>
       generate_try eng env ctx m c prompt maxTokens =
         generate_from_tokens eng env
           (ctx\<lparr>context_ptr := Some c0,
                 tokens := resize (tokenize_into (resize [] (nat max_input_tokens)) written)
                             (nat n_prompt)\<rparr>)
           (llama_model_get_vocab eng m) c0 (if maxTokens \<le> 0 then 256 else maxTokens) n_prompt"
    unfolding Let_def
    using generate_try_reaches_tokens[where eng = eng and e = env and prompt = prompt and m = m
        and c = c and ctx = ctx and maxTokens = maxTokens, unfolded Let_def]
    by simp
qed

lemma example_prefill_fails:
  "fst (nativeGenerateText (example_engine 0 8) (Some example_env) example_registry 1 (Some ''a'') 0 0 0 0) =
     Some ''Error: Failed to decode prompt''"
  by code_simp

lemma example_decode_fails_in_loop:
  "fst (nativeGenerateText (example_engine 1 8) (Some example_env) example_registry 1 (Some ''a'') 0 0 0 0) =
     Some ''b''"
  by code_simp

lemma example_no_logits:
  "fst (nativeGenerateText (example_engine 8 2) (Some example_env) example_registry 1 (Some ''a'') 0 0 0 0) =
     Some ''b''"
  by code_simp

theorem decode_failure_example:
  "fst (generate_from_tokens (example_engine 0 8) example_env
          \<lparr>model = Some 0, context_ptr = Some (8, []), tokens = [0], rng = 42\<rparr> () (8, []) 256 1) =
     Some ''Error: Failed to decode prompt'' \<and>
   generate_loop (example_engine 8 1)
     \<lparr>model = Some 0, context_ptr = Some (8, [0]), tokens = [0], rng = 42\<rparr> () 7 0
     \<lparr>gen_result = [], gen_batch = prompt_batch [0] 1, gen_tokens = [0], gen_context = (8, [0])\<rparr> =
   Finished \<lparr>gen_result = [], gen_batch = prompt_batch [0] 1, gen_tokens = [0],
             gen_context = (8, [0])\<rparr> \<and>
   (\<exists>gv'. generate_loop (example_engine 1 8)
            \<lparr>model = Some 0, context_ptr = Some (8, [0]), tokens = [0], rng = 42\<rparr> () 7 0
            \<lparr>gen_result = [], gen_batch = prompt_batch [0] 1, gen_tokens = [0],
             gen_context = (8, [0])\<rparr> = Finished gv' \<and>
          gen_result gv' = ''b'') \<and>
   fst (nativeGenerateText (example_engine 0 8) (Some example_env) example_registry 1 (Some ''a'') 0 0 0 0) =
     Some ''Error: Failed to decode prompt'' \<and>
   fst (nativeGenerateText (example_engine 1 8) (Some example_env) example_registry 1 (Some ''a'') 0 0 0 0) =
     Some ''b'' \<and>
   fst (nativeGenerateText (example_engine 8 2) (Some example_env) example_registry 1 (Some ''a'') 0 0 0 0) =
     Some ''b''"
proof -
  let ?ctx = "\<lparr>model = Some (0::nat), context_ptr = Some (8 :: 32 word, [0 :: int]), tokens = [0 :: int],
               rng = 42\<rparr>"
  let ?gv = "\<lparr>gen_result = [], gen_batch = prompt_batch [0] 1, gen_tokens = [0 :: int],
              gen_context = (8 :: 32 word, [0 :: int])\<rparr>"
  have a: "fst (generate_from_tokens (example_engine 0 8) example_env
          \<lparr>model = Some 0, context_ptr = Some (8, []), tokens = [0], rng = 42\<rparr> () (8, []) 256 1) =
     Some ''Error: Failed to decode prompt''"
    using decode_failure_before_and_inside_loop
      [where eng = "example_engine 0 8" and env = example_env and c = "(8, [])"
         and ctx = "\<lparr>model = Some 0, context_ptr = Some (8, []), tokens = [0], rng = 42\<rparr>"
         and n_tokens = 1 and vocab = "()" and maxTokens = 256 and i = 0 and max_gen_tokens = 0
         and gv = ?gv and prompt = None and m = 0]
    by (simp add: example_engine_def example_env_def prompt_batch_def string_to_jstring_def)
  have b: "generate_loop (example_engine 8 1) ?ctx () 7 0 ?gv = Finished ?gv"
    using decode_failure_before_and_inside_loop
      [where eng = "example_engine 8 1" and env = example_env and c = "(8, [])" and ctx = ?ctx
         and n_tokens = 1 and vocab = "()" and maxTokens = 256 and i = 0 and max_gen_tokens = 7
         and gv = ?gv and prompt = None and m = 0]
    by (simp add: example_engine_def)
  have c: "\<exists>gv'. generate_loop (example_engine 1 8) ?ctx () 7 0 ?gv = Finished gv' \<and>
          gen_result gv' = ''b''"
    using decode_failure_before_and_inside_loop
      [where eng = "example_engine 1 8" and env = example_env and c = "(8, [])" and ctx = ?ctx
         and n_tokens = 1 and vocab = "()" and maxTokens = 256 and i = 0 and max_gen_tokens = 7
         and gv = ?gv and prompt = None and m = 0 and lg = "[Num 0, Num 1, Num 0, Num 0]" and t = 1]
    by (simp add: example_engine_def sample_token_greedy_def session_of_def greedy_scan.simps
          next_batch_def prompt_batch_def piece_text_def)
  show ?thesis
    using a b c example_prefill_fails example_decode_fails_in_loop example_no_logits
    by blast
qed

text \<open>
  Claim C10. In an iteration whose token does not end the sequence and has a fragment
  length that is not positive, the text stays as it is, and still the token is appended to
  the history and decoded as a batch of one token at the position of the old history length;
  when that decode returns 0 the loop goes on at \<open>i + 1\<close>, so the iteration has used one
  unit of the ceiling. A call can therefore return a text with fewer fragments than the
  history has generated tokens.
\<close>

theorem silent_token_is_recorded_and_decoded:
  "llama_get_logits_ith eng (gen_context gv) (batch_n_tokens (gen_batch gv) - 1) = Some lg \<and>
   t = sample_token_greedy eng (Some (session_of ctx gv)) (Some lg) \<and>
   \<not> llama_vocab_is_eog eng vocab t \<and>
   fst (llama_token_to_piece eng vocab t 256 0 False) \<le> 0 \<and>
   \<not> bad_alloc eng (Tokens_push_back i) \<longrightarrow>
   (let batch = next_batch (gen_batch gv) t (length (gen_tokens gv));
        gv' = \<lparr>gen_result = gen_result gv, gen_batch = batch, gen_tokens = gen_tokens gv @ [t],
               gen_context = snd (llama_decode eng (gen_context gv) batch)\<rparr>
    in batch_n_tokens batch = 1 \<and>
       (batch_token (gen_batch gv) \<noteq> [] \<longrightarrow> batch_token batch ! 0 = t) \<and>
       (batch_pos (gen_batch gv) \<noteq> [] \<longrightarrow> batch_pos batch ! 0 = int (length (gen_tokens gv))) \<and>
       generate_step eng ctx vocab i gv =
         (if fst (llama_decode eng (gen_context gv) batch) \<noteq> 0 then Break gv' else Continue gv') \<and>
       (i < max_gen_tokens \<longrightarrow>
          generate_loop eng ctx vocab max_gen_tokens i gv =
            (if fst (llama_decode eng (gen_context gv) batch) \<noteq> 0 then Finished gv'
             else generate_loop eng ctx vocab max_gen_tokens (i + 1) gv')))"
proof
  assume a: "llama_get_logits_ith eng (gen_context gv) (batch_n_tokens (gen_batch gv) - 1) = Some lg \<and>
   t = sample_token_greedy eng (Some (session_of ctx gv)) (Some lg) \<and>
   \<not> llama_vocab_is_eog eng vocab t \<and>
   fst (llama_token_to_piece eng vocab t 256 0 False) \<le> 0 \<and>
   \<not> bad_alloc eng (Tokens_push_back i)"
  let ?b = "next_batch (gen_batch gv) t (length (gen_tokens gv))"
  let ?gv' = "\<lparr>gen_result = gen_result gv, gen_batch = ?b, gen_tokens = gen_tokens gv @ [t],
               gen_context = snd (llama_decode eng (gen_context gv) ?b)\<rparr>"
  from a have a2: "llama_get_logits_ith eng (gen_context gv) (batch_n_tokens (gen_batch gv) - 1) = Some lg"
    and a3: "t = sample_token_greedy eng (Some (session_of ctx gv)) (Some lg)"
    and a4: "\<not> llama_vocab_is_eog eng vocab t"
    and a5: "fst (llama_token_to_piece eng vocab t 256 0 False) \<le> 0"
    and a6: "\<not> bad_alloc eng (Tokens_push_back i)"
    by blast+
  have a5': "\<not> (0 < fst (llama_token_to_piece eng vocab t 256 0 False) \<and> bad_alloc eng (Result_append i))"
    using a5 by simp
  have silent: "piece_text eng vocab t = []" using a5 by (rule piece_text_silent)
  have step: "generate_step eng ctx vocab i gv =
         (if fst (llama_decode eng (gen_context gv) ?b) \<noteq> 0 then Break ?gv' else Continue ?gv')"
    using generate_step_decode[OF a2 a3 a4 a5' a6 refl] silent by simp
  have loop: "generate_loop eng ctx vocab max_gen_tokens i gv =
            (if fst (llama_decode eng (gen_context gv) ?b) \<noteq> 0 then Finished ?gv'
             else generate_loop eng ctx vocab max_gen_tokens (i + 1) ?gv')"
    if "i < max_gen_tokens"
  proof (cases "fst (llama_decode eng (gen_context gv) ?b) \<noteq> 0")
    case True
    then have "generate_step eng ctx vocab i gv = Break ?gv'" using step by simp
    from generate_loop_break[OF that this] True show ?thesis by simp
  next
    case False
    then have "generate_step eng ctx vocab i gv = Continue ?gv'" using step by simp
    from generate_loop_continue[OF that this] False show ?thesis by simp
  qed
  have b1: "batch_n_tokens ?b = 1" by (simp add: next_batch_def)
  have b2: "batch_token (gen_batch gv) \<noteq> [] \<longrightarrow> batch_token ?b ! 0 = t"
    by (simp add: next_batch_def)
  have b3: "batch_pos (gen_batch gv) \<noteq> [] \<longrightarrow> batch_pos ?b ! 0 = int (length (gen_tokens gv))"
    by (simp add: next_batch_def)
  show "let batch = next_batch (gen_batch gv) t (length (gen_tokens gv));
        gv' = \<lparr>gen_result = gen_result gv, gen_batch = batch, gen_tokens = gen_tokens gv @ [t],
               gen_context = snd (llama_decode eng (gen_context gv) batch)\<rparr>
    in batch_n_tokens batch = 1 \<and>
       (batch_token (gen_batch gv) \<noteq> [] \<longrightarrow> batch_token batch ! 0 = t) \<and>
       (batch_pos (gen_batch gv) \<noteq> [] \<longrightarrow> batch_pos batch ! 0 = int (length (gen_tokens gv))) \<and>
       generate_step eng ctx vocab i gv =
         (if fst (llama_decode eng (gen_context gv) batch) \<noteq> 0 then Break gv' else Continue gv') \<and>
       (i < max_gen_tokens \<longrightarrow>
          generate_loop eng ctx vocab max_gen_tokens i gv =
            (if fst (llama_decode eng (gen_context gv) batch) \<noteq> 0 then Finished gv'
             else generate_loop eng ctx vocab max_gen_tokens (i + 1) gv'))"
    unfolding Let_def using b1 b2 b3 step loop by blast
qed

lemma example_silent_call:
  "nativeGenerateText (example_engine 8 8) (Some example_env) example_registry 1 (Some ''ab'') 1 0 0 0 =
     (Some [],
      example_registry\<lparr>g_contexts := (g_contexts example_registry)
        (1 \<mapsto> \<lparr>model = Some 0, context_ptr = Some (8, [0, 1, 2]), tokens = [0, 1, 2], rng = 42\<rparr>)\<rparr>)"
  by (simp add: nativeGenerateText_def get_context_def example_session generate_try_def
      generate_from_tokens_def example_engine_def example_env_def
      jstring_to_string_def string_to_jstring_def Let_def resize_def tokenize_into_def prompt_batch_def wrap_int_def
      generate_loop.simps generate_step_def sample_token_greedy_def session_of_def greedy_scan.simps
      next_batch_def piece_text_def)

theorem silent_token_example:
  "generate_step (example_engine 8 8)
     \<lparr>model = Some 0, context_ptr = Some (8, [0, 1]), tokens = [0, 1], rng = 42\<rparr> () 0
     \<lparr>gen_result = [], gen_batch = prompt_batch [0, 1] 2, gen_tokens = [0, 1],
      gen_context = (8, [0, 1])\<rparr> =
   Continue \<lparr>gen_result = [], gen_batch = next_batch (prompt_batch [0, 1] 2) 2 2,
             gen_tokens = [0, 1, 2], gen_context = (8, [0, 1, 2])\<rparr> \<and>
   fst (nativeGenerateText (example_engine 8 8) (Some example_env) example_registry 1 (Some ''ab'') 1 0 0 0) =
     Some [] \<and>
   (\<exists>ctx'. g_contexts (snd (nativeGenerateText (example_engine 8 8) (Some example_env) example_registry 1
                              (Some ''ab'') 1 0 0 0)) 1 = Some ctx' \<and>
           tokens ctx' = [0, 1, 2])"
proof -
  have st: "generate_step (example_engine 8 8)
     \<lparr>model = Some 0, context_ptr = Some (8, [0, 1]), tokens = [0, 1], rng = 42\<rparr> () 0
     \<lparr>gen_result = [], gen_batch = prompt_batch [0, 1] 2, gen_tokens = [0, 1],
      gen_context = (8, [0, 1])\<rparr> =
   Continue \<lparr>gen_result = [], gen_batch = next_batch (prompt_batch [0, 1] 2) 2 2,
             gen_tokens = [0, 1, 2], gen_context = (8, [0, 1, 2])\<rparr>"
    using silent_token_is_recorded_and_decoded
      [where eng = "example_engine 8 8" and vocab = "()" and i = 0 and max_gen_tokens = 1
         and lg = "[Num 0, Num 0, Num 1, Num 0]" and t = 2
         and ctx = "\<lparr>model = Some 0, context_ptr = Some (8, [0, 1]), tokens = [0, 1], rng = 42\<rparr>"
         and gv = "\<lparr>gen_result = [], gen_batch = prompt_batch [0, 1] 2, gen_tokens = [0, 1],
                    gen_context = (8, [0, 1])\<rparr>"]
    by (simp add: example_engine_def sample_token_greedy_def session_of_def
          greedy_scan.simps next_batch_def prompt_batch_def Let_def)
  show ?thesis using st by (simp add: example_silent_call)
qed

lemma generate_from_tokens_session:
  assumes dec: "\<And>c batch. llama_memory_clear eng (snd (llama_decode eng c batch)) = llama_memory_clear eng c"
  shows "\<exists>T c1. snd (generate_from_tokens eng env ctx vocab c maxTokens n_tokens) =
                  ctx\<lparr>context_ptr := Some c1, tokens := T\<rparr> \<and>
                llama_memory_clear eng c1 = llama_memory_clear eng c"
proof -
  let ?batch = "prompt_batch (tokens ctx) n_tokens"
  let ?c1 = "snd (llama_decode eng c ?batch)"
  let ?ctx1 = "ctx\<lparr>context_ptr := Some ?c1\<rparr>"
  let ?mg = "min maxTokens (wrap_int (sint (llama_n_ctx eng ?c1) - n_tokens))"
  let ?gv0 = "\<lparr>gen_result = [], gen_batch = ?batch, gen_tokens = tokens ctx, gen_context = ?c1\<rparr>"
  let ?out = "generate_loop eng ?ctx1 vocab ?mg 0 ?gv0"
  have c1: "llama_memory_clear eng ?c1 = llama_memory_clear eng c" by (rule dec)
  show ?thesis
  proof (cases "fst (llama_decode eng c ?batch) \<noteq> 0")
    case True
    then have "snd (generate_from_tokens eng env ctx vocab c maxTokens n_tokens) =
               ctx\<lparr>context_ptr := Some ?c1, tokens := tokens ctx\<rparr>"
      by (simp add: generate_from_tokens_def Let_def)
    with c1 show ?thesis by blast
  next
    case False
    have s: "snd (generate_from_tokens eng env ctx vocab c maxTokens n_tokens) =
             ctx\<lparr>context_ptr := Some (gen_context (exit_vars ?out)),
                  tokens := gen_tokens (exit_vars ?out)\<rparr>"
      using False by (cases ?out) (simp_all add: generate_from_tokens_def Let_def session_of_def)
    have "llama_memory_clear eng (gen_context (exit_vars ?out)) = llama_memory_clear eng (gen_context ?gv0)"
      by (rule generate_loop_context[where f = "llama_memory_clear eng"]) (rule dec)
    then have "llama_memory_clear eng (gen_context (exit_vars ?out)) = llama_memory_clear eng c"
      using c1 by simp
    with s show ?thesis by blast
  qed
qed

lemma generate_try_session:
  assumes res: "memory_clear_resets eng" and cp: "context_ptr ctx = Some c"
  shows "\<exists>T c1. snd (generate_try eng e ctx m c prompt maxTokens) =
                  ctx\<lparr>context_ptr := Some c1, tokens := T\<rparr> \<and>
                llama_memory_clear eng c1 = llama_memory_clear eng c"
proof -
  let ?r = "generate_try eng e ctx m c prompt maxTokens"
  let ?input = "jstring_to_string e prompt"
  let ?c0 = "llama_memory_clear eng c"
  let ?vocab = "llama_model_get_vocab eng m"
  let ?n = "fst (llama_tokenize eng ?vocab ?input (int (length ?input))
                   (uint (llama_n_ctx eng ?c0 div 2)) True False)"
  have dec: "\<And>c batch. llama_memory_clear eng (snd (llama_decode eng c batch)) = llama_memory_clear eng c"
    and idem: "llama_memory_clear eng ?c0 = ?c0"
    using res by (simp_all add: memory_clear_resets_def)
  have same: "ctx = ctx\<lparr>context_ptr := Some c, tokens := tokens ctx\<rparr>"
    using cp by (cases ctx) simp
  show ?thesis
  proof (cases "bad_alloc eng Prompt_string \<or> ?input = []")
    case True
    then have "snd ?r = ctx" by (auto simp: generate_try_def Let_def)
    then have "snd ?r = ctx\<lparr>context_ptr := Some c, tokens := tokens ctx\<rparr>" using same by simp
    then show ?thesis by blast
  next
    case f1: False
    show ?thesis
    proof (cases "bad_alloc eng Tokens_resize")
      case True
      then have "snd ?r = ctx\<lparr>context_ptr := Some ?c0, tokens := []\<rparr>"
        using f1 by (simp add: generate_try_def Let_def)
      with idem show ?thesis by blast
    next
      case f3: False
      show ?thesis
      proof (cases "?n < 0")
        case True
        then have "snd ?r = ctx\<lparr>context_ptr := Some ?c0,
            tokens := tokenize_into (resize [] (nat (uint (llama_n_ctx eng ?c0 div 2))))
                   (snd (llama_tokenize eng ?vocab ?input (int (length ?input))
                          (uint (llama_n_ctx eng ?c0 div 2)) True False))\<rparr>"
          using f1 f3 by (simp add: generate_try_def Let_def)
        with idem show ?thesis by blast
      next
        case False
        then have f4: "0 \<le> ?n" by simp
        from f1 have f1a: "\<not> bad_alloc eng Prompt_string" and f1b: "?input \<noteq> []" by simp_all
        note r = generate_try_reaches_tokens[OF f1a f1b f3 f4, of ctx maxTokens, unfolded Let_def]
        let ?ctx2 = "ctx\<lparr>context_ptr := Some ?c0,
                 tokens := resize (tokenize_into (resize [] (nat (uint (llama_n_ctx eng ?c0 div 2))))
                   (snd (llama_tokenize eng ?vocab ?input (int (length ?input))
                          (uint (llama_n_ctx eng ?c0 div 2)) True False))) (nat ?n)\<rparr>"
        let ?g = "generate_from_tokens eng e ?ctx2 ?vocab ?c0 (if maxTokens \<le> 0 then 256 else maxTokens) ?n"
        have rg: "?r = ?g" by (rule r)
        from generate_from_tokens_session[where eng = eng and env = e and ctx = ?ctx2 and vocab = ?vocab
            and c = ?c0 and maxTokens = "if maxTokens \<le> 0 then 256 else maxTokens" and n_tokens = ?n,
            OF dec]
        obtain T c1 where g: "snd ?g = ?ctx2\<lparr>context_ptr := Some c1, tokens := T\<rparr>"
          "llama_memory_clear eng c1 = llama_memory_clear eng ?c0" by blast
        have "snd ?r = ctx\<lparr>context_ptr := Some c1, tokens := T\<rparr>" unfolding rg g(1) by simp
        moreover have "llama_memory_clear eng c1 = ?c0" using g(2) idem by simp
        ultimately show ?thesis by blast
      qed
    qed
  qed
qed

lemma generate_try_reset:
  assumes "llama_memory_clear eng c1 = llama_memory_clear eng c"
  shows "fst (generate_try eng e (ctx\<lparr>context_ptr := Some c1, tokens := T\<rparr>) m c1 prompt maxTokens) =
         fst (generate_try eng e ctx m c prompt maxTokens)"
  by (simp add: generate_try_def Let_def assms)

text \<open>
  Claim C8. With an engine whose memory clear forgets every decode made on the context, a
  second generation call on the registry that the first call left, with the same handle,
  prompt and parameters, returns the same text or error string as the first. The reason is
  in the code: the call empties the token history and clears the context before it uses
  them, so its result does not depend on the history of the session, and depends on the
  context only through the cleared context.
\<close>

theorem consecutive_generations_agree:
  fixes eng :: "('m, 'c, 'v, 's::linorder) engine"
  assumes "memory_clear_resets eng"
  shows
  "fst (nativeGenerateText eng env
          (snd (nativeGenerateText eng env st handle prompt maxTokens temperature topP topK))
          handle prompt maxTokens temperature topP topK) =
   fst (nativeGenerateText eng env st handle prompt maxTokens temperature topP topK) \<and>
   (llama_memory_clear eng d = llama_memory_clear eng c \<longrightarrow>
      fst (generate_try eng e (ctx\<lparr>context_ptr := Some d, tokens := T\<rparr>) m d prompt maxTokens) =
      fst (generate_try eng e ctx m c prompt maxTokens))"
proof (intro conjI impI)
  let ?first = "nativeGenerateText eng env st handle prompt maxTokens temperature topP topK"
  show "fst (nativeGenerateText eng env (snd ?first) handle prompt maxTokens temperature topP topK) =
        fst ?first"
  proof (cases "\<exists>e' p' ctx' m' c'. env = Some e' \<and> prompt = Some p' \<and> handle \<noteq> 0 \<and>
                  get_context st handle = Some ctx' \<and> model ctx' = Some m' \<and> context_ptr ctx' = Some c'")
    case False
    then have "snd ?first = st"
      by (auto simp: nativeGenerateText_def Let_def split: option.splits)
    then show ?thesis by simp
  next
    case True
    then obtain e' p' ctx' m' c' where v: "env = Some e'" "prompt = Some p'" "handle \<noteq> 0"
      "get_context st handle = Some ctx'" "model ctx' = Some m'" "context_ptr ctx' = Some c'"
      by blast
    let ?r = "generate_try eng e' ctx' m' c' prompt maxTokens"
    have first: "?first = (fst ?r, st\<lparr>g_contexts := (g_contexts st)(handle \<mapsto> snd ?r)\<rparr>)"
      by (rule generate_valid_session[OF v])
    from generate_try_session[OF assms v(6), of e' m' prompt maxTokens]
    obtain T' c1' where s: "snd ?r = ctx'\<lparr>context_ptr := Some c1', tokens := T'\<rparr>"
      "llama_memory_clear eng c1' = llama_memory_clear eng c'" by blast
    let ?st1 = "st\<lparr>g_contexts := (g_contexts st)(handle \<mapsto> snd ?r)\<rparr>"
    have g1: "get_context ?st1 handle = Some (snd ?r)" by (simp add: get_context_def)
    have m1: "model (snd ?r) = Some m'" unfolding s(1) using v(5) by simp
    have p1: "context_ptr (snd ?r) = Some c1'" unfolding s(1) by simp
    have second: "nativeGenerateText eng env ?st1 handle prompt maxTokens temperature topP topK =
        (fst (generate_try eng e' (snd ?r) m' c1' prompt maxTokens),
         ?st1\<lparr>g_contexts := (g_contexts ?st1)(handle \<mapsto>
                  snd (generate_try eng e' (snd ?r) m' c1' prompt maxTokens))\<rparr>)"
      by (rule generate_valid_session[OF v(1) v(2) v(3) g1 m1 p1])
    have "fst (generate_try eng e' (snd ?r) m' c1' prompt maxTokens) = fst ?r"
      unfolding s(1) by (rule generate_try_reset[OF s(2)])
    then show ?thesis unfolding first using second by simp
  qed
next
  assume "llama_memory_clear eng d = llama_memory_clear eng c"
  then show "fst (generate_try eng e (ctx\<lparr>context_ptr := Some d, tokens := T\<rparr>) m d prompt maxTokens) =
      fst (generate_try eng e ctx m c prompt maxTokens)"
    by (rule generate_try_reset)
qed

theorem consecutive_generations_example:
  "memory_clear_resets (example_engine 8 8) \<and>
   fst (nativeGenerateText (example_engine 8 8) (Some example_env) example_registry 1 (Some ''a'') 0 0 0 0) =
     Some ''b'' \<and>
   fst (nativeGenerateText (example_engine 8 8) (Some example_env)
          (snd (nativeGenerateText (example_engine 8 8) (Some example_env) example_registry 1
                  (Some ''a'') 0 0 0 0))
          1 (Some ''a'') 0 0 0 0) = Some ''b''"
proof -
  have r: "memory_clear_resets (example_engine 8 8)" by (rule example_clear_resets)
  have f: "fst (nativeGenerateText (example_engine 8 8) (Some example_env) example_registry 1
                  (Some ''a'') 0 0 0 0) = Some ''b''"
    by (simp add: example_generate_a)
  from consecutive_generations_agree[OF r, where env = "Some example_env" and st = example_registry
      and handle = 1 and prompt = "Some ''a''" and maxTokens = 0 and temperature = 0 and topP = 0
      and topK = 0 and d = "(8, [0])" and c = "(8, [])" and e = example_env and m = 0 and T = "[]"
      and ctx = "\<lparr>model = Some 0, context_ptr = Some (8, []), tokens = [], rng = 42\<rparr>"]
  have "fst (nativeGenerateText (example_engine 8 8) (Some example_env)
          (snd (nativeGenerateText (example_engine 8 8) (Some example_env) example_registry 1
                  (Some ''a'') 0 0 0 0))
          1 (Some ''a'') 0 0 0 0) =
        fst (nativeGenerateText (example_engine 8 8) (Some example_env) example_registry 1
                  (Some ''a'') 0 0 0 0)"
    by (rule conjunct1)
  with r f show ?thesis by simp
qed

end
